theory Spec2Isabelle
  imports Complex_Main "HOL-Library.Product_Lexorder" "HOL-Library.List_Lexorder" "HOL-Library.Char_ord"
begin

section \<open>Characters and strings\<close>

text \<open>
  A Python \<open>str\<close> is a sequence of code points. Texts are modelled as \<^typ>\<open>string\<close>, read as
  sequences of code points below 256; the character classes below are the ones that
  Python's \<open>re\<close> module and \<open>str.strip\<close> use on \<open>str\<close> values, restricted to that range.
\<close>

definition code :: "char \<Rightarrow> nat" where
  "code c = of_char c"

text \<open>\<open>\s\<close> of \<open>re\<close>, and the characters removed by \<open>str.strip()\<close>.\<close>

definition is_space :: "char \<Rightarrow> bool" where
  "is_space c \<longleftrightarrow>
     (9 \<le> code c \<and> code c \<le> 13) \<or> (28 \<le> code c \<and> code c \<le> 32) \<or> code c = 133 \<or> code c = 160"

text \<open>\<open>\d\<close> of \<open>re\<close>.\<close>

definition is_digit :: "char \<Rightarrow> bool" where
  "is_digit c \<longleftrightarrow> 48 \<le> code c \<and> code c \<le> 57"

text \<open>The ranges \<open>A-Z\<close> and \<open>a-z\<close>.\<close>

definition is_upper :: "char \<Rightarrow> bool" where
  "is_upper c \<longleftrightarrow> 65 \<le> code c \<and> code c \<le> 90"

definition is_lower :: "char \<Rightarrow> bool" where
  "is_lower c \<longleftrightarrow> 97 \<le> code c \<and> code c \<le> 122"

text \<open>\<open>\w\<close> of \<open>re\<close>: the alphanumeric code points and the underscore.\<close>

definition is_word :: "char \<Rightarrow> bool" where
  "is_word c \<longleftrightarrow>
     is_digit c \<or> is_upper c \<or> is_lower c \<or> code c = 95 \<or>
     code c = 170 \<or> code c = 178 \<or> code c = 179 \<or> code c = 181 \<or> code c = 185 \<or>
     code c = 186 \<or> (188 \<le> code c \<and> code c \<le> 190) \<or> (192 \<le> code c \<and> code c \<le> 214) \<or>
     (216 \<le> code c \<and> code c \<le> 246) \<or> (248 \<le> code c \<and> code c \<le> 255)"

text \<open>\<open>str.strip()\<close>: leading and trailing whitespace removed.\<close>

definition strip :: "string \<Rightarrow> string" where
  "strip s = rev (dropWhile is_space (rev (dropWhile is_space s)))"

text \<open>
  \<open>re.sub(r'C+', repl, s)\<close> for a character class \<open>C\<close>: every maximal run of characters
  of the class is replaced by \<open>repl\<close>.
\<close>

function re_sub_plus :: "(char \<Rightarrow> bool) \<Rightarrow> string \<Rightarrow> string \<Rightarrow> string" where
  "re_sub_plus P repl [] = []"
| "re_sub_plus P repl (c # cs) =
     (if P c then repl @ re_sub_plus P repl (dropWhile P cs)
      else c # re_sub_plus P repl cs)"
  by pat_completeness auto
termination
  by (relation "measure (\<lambda>(P, repl, s). length s)")
     (auto simp: length_dropWhile_le less_Suc_eq_le)

section \<open>Extraction adapter: text normalisation\<close>

text \<open>The class \<open>[\w\s\-.,@()$#]\<close> of characters that \<open>normalize_text\<close> keeps.\<close>

definition whitelisted :: "char \<Rightarrow> bool" where
  "whitelisted c \<longleftrightarrow> is_word c \<or> is_space c \<or> c \<in> set ''-.,@()$#''"

definition normalize_text :: "string \<Rightarrow> string" where
  "normalize_text text =
     (if text = [] then []
      else
        let text1 = re_sub_plus is_space '' '' (strip text);
            text2 = re_sub_plus (\<lambda>c. c = CHR 0x0A) '' '' text1
        in filter whitelisted text2)"


text \<open>
  Two shapes of normalised text: every whitespace character is a single blank between
  two other characters, and the text neither starts nor ends with whitespace.
\<close>

fun single_spaced :: "string \<Rightarrow> bool" where
  "single_spaced [] = True"
| "single_spaced (c # cs) =
     (if is_space c then c = CHR '' '' \<and> (cs = [] \<or> \<not> is_space (hd cs)) \<and> single_spaced cs
      else single_spaced cs)"

definition trimmed :: "string \<Rightarrow> bool" where
  "trimmed s \<longleftrightarrow> s = [] \<or> (\<not> is_space (hd s) \<and> \<not> is_space (last s))"


section \<open>Regular expressions\<close>

text \<open>
  The patterns of the program are built from single-character classes, sequencing,
  alternation, counted repetition, the greedy \<open>+\<close> of a character class, and the anchor
  \<open>$\<close>. Python's \<open>re\<close> matches them by backtracking: at every choice it tries the
  alternatives in a fixed order (the left branch of \<open>|\<close> first, one more round of a
  repetition before stopping) and returns the first way that lets the whole pattern
  match.
\<close>

datatype regex =
    Eps
  | Cls "char \<Rightarrow> bool"
  | Seq regex regex
  | Alt regex regex
  | Rep regex nat nat
  | Plus "char \<Rightarrow> bool"
  | Star "char \<Rightarrow> bool"
  | Eol

fun weight :: "regex \<Rightarrow> nat" where
  "weight Eps = 1"
| "weight (Cls P) = 1"
| "weight (Seq a b) = weight a + weight b + 1"
| "weight (Alt a b) = weight a + weight b + 1"
| "weight (Rep a lo hi) = (hi + 1) * (weight a + 1)"
| "weight (Plus P) = 2"
| "weight (Star P) = 1"
| "weight Eol = 1"

text \<open>
  \<open>backtrack rs s\<close> matches the patterns \<open>rs\<close> one after the other at the start of \<open>s\<close> and
  returns the number of characters of the first successful way, in the order of the
  backtracking search. \<open>$\<close> holds at the end of the text and just before a newline that
  ends it.
\<close>

function backtrack :: "regex list \<Rightarrow> string \<Rightarrow> nat option" where
  "backtrack [] s = Some 0"
| "backtrack (Eps # rs) s = backtrack rs s"
| "backtrack (Cls P # rs) s =
     (case s of
        [] \<Rightarrow> None
      | c # cs \<Rightarrow> if P c then map_option Suc (backtrack rs cs) else None)"
| "backtrack (Seq a b # rs) s = backtrack (a # b # rs) s"
| "backtrack (Alt a b # rs) s =
     (case backtrack (a # rs) s of
        Some n \<Rightarrow> Some n
      | None \<Rightarrow> backtrack (b # rs) s)"
| "backtrack (Rep a lo hi # rs) s =
     (if hi = 0 then (if lo = 0 then backtrack rs s else None)
      else
        (case backtrack (a # Rep a (lo - 1) (hi - 1) # rs) s of
           Some n \<Rightarrow> Some n
         | None \<Rightarrow> if lo = 0 then backtrack rs s else None))"
| "backtrack (Plus P # rs) s =
     (case s of
        [] \<Rightarrow> None
      | c # cs \<Rightarrow> if P c then map_option Suc (backtrack (Star P # rs) cs) else None)"
| "backtrack (Star P # rs) s =
     (case s of
        [] \<Rightarrow> backtrack rs s
      | c # cs \<Rightarrow>
          if P c then
            (case backtrack (Star P # rs) cs of
               Some n \<Rightarrow> Some (Suc n)
             | None \<Rightarrow> backtrack rs s)
          else backtrack rs s)"
| "backtrack (Eol # rs) s =
     (if s = [] \<or> s = [CHR 0x0A] then backtrack rs s else None)"
  by pat_completeness auto
termination
  by (relation "measures [\<lambda>(rs, s). length s, \<lambda>(rs, s). sum_list (map weight rs)]")
     (auto simp: algebra_simps)

text \<open>\<open>re.match(r, s)\<close>: the length of the match at the start of \<open>s\<close>, if there is one.\<close>

definition re_match :: "regex \<Rightarrow> string \<Rightarrow> nat option" where
  "re_match r s = backtrack [r] s"

text \<open>A sequence of patterns, an optional pattern, a literal character.\<close>

definition seqs :: "regex list \<Rightarrow> regex" where
  "seqs rs = foldr Seq rs Eps"

definition opt :: "regex \<Rightarrow> regex" where
  "opt r = Alt r Eps"

definition chr :: "char \<Rightarrow> regex" where
  "chr c = Cls (\<lambda>x. x = c)"

text \<open>
  Under \<open>re.IGNORECASE\<close> a letter of the pattern matches itself in either case; any other
  character of the pattern matches itself only.
\<close>

definition same_letter :: "char \<Rightarrow> char \<Rightarrow> bool" where
  "same_letter c x \<longleftrightarrow>
     x = c \<or> (is_lower c \<and> code x + 32 = code c) \<or> (is_upper c \<and> code x = code c + 32)"

definition lit_ci :: "string \<Rightarrow> regex" where
  "lit_ci w = seqs (map (\<lambda>c. Cls (same_letter c)) w)"

text \<open>
  \<open>re.finditer(r, s)\<close>: the matches from left to right, each as its start and end offset.
  The search for the next match resumes where the last one ended. \<open>off\<close> is the offset
  of \<open>s\<close> in the whole text. An empty match is reported and the search moves on by one
  character; none of the program's patterns can match the empty text.
\<close>

function finditer :: "regex \<Rightarrow> int \<Rightarrow> string \<Rightarrow> (int \<times> int) list" where
  "finditer r off [] = (case re_match r [] of None \<Rightarrow> [] | Some _ \<Rightarrow> [(off, off)])"
| "finditer r off (c # cs) =
     (case re_match r (c # cs) of
        None \<Rightarrow> finditer r (off + 1) cs
      | Some n \<Rightarrow>
          if n = 0 then (off, off) # finditer r (off + 1) cs
          else (off, off + int n) # finditer r (off + int n) (drop (n - 1) cs))"
  by pat_completeness auto
termination
  by (relation "measure (\<lambda>(r, off, s). length s)") auto

section \<open>Extraction adapter: table confidence\<close>

text \<open>
  A table is a list of rows, a row a list of cells, a cell either \<open>None\<close> or a text, as
  both table extractors return them.
\<close>

type_synonym cell = "string option"

type_synonym table = "cell list list"

text \<open>The test \<open>cell and str(cell).strip()\<close> of a cell.\<close>

definition cell_filled :: "cell \<Rightarrow> bool" where
  "cell_filled cell = (case cell of None \<Rightarrow> False | Some s \<Rightarrow> s \<noteq> [] \<and> strip s \<noteq> [])"

definition calculate_table_confidence :: "table \<Rightarrow> real" where
  "calculate_table_confidence table =
     (if table = [] then 0
      else
        let total_cells = sum_list (map length table);
            filled_cells = sum_list (concat (map (\<lambda>row. [1::nat. cell \<leftarrow> row, cell_filled cell]) table))
        in if total_cells = 0 then 0
           else
             let fill_ratio = real filled_cells / real total_cells;
                 structure_score = min 1 (real (length table) / 5)
             in (fill_ratio * 0.7) + (structure_score * 0.3))"

text \<open>
  The filter of \<open>extract_tables_enhanced\<close> on the tables of the first backend: more than one
  row, and some cell that is neither \<open>None\<close> nor the empty text.
\<close>

definition table_survives :: "table \<Rightarrow> bool" where
  "table_survives table \<longleftrightarrow>
     table \<noteq> [] \<and> 1 < length table \<and>
     list_ex (\<lambda>row. list_ex (\<lambda>cell. cell \<noteq> None \<and> cell \<noteq> Some []) row) table"

text \<open>
  The quantities the specification names: the cells of a table, the share of filled
  cells among them, and the weighted score.
\<close>

definition cells :: "table \<Rightarrow> cell list" where
  "cells table = concat table"

definition fill_ratio :: "table \<Rightarrow> real" where
  "fill_ratio table = real (length (filter cell_filled (cells table))) / real (length (cells table))"

definition table_score :: "table \<Rightarrow> real" where
  "table_score table = 0.7 * fill_ratio table + 0.3 * min 1 (real (length table) / 5)"

section \<open>Chunker\<close>

text \<open>
  Python's slice \<open>s[a:b]\<close> for integer bounds: a negative bound counts from the end, and
  both bounds are cut to the text.
\<close>

definition clamp_index :: "nat \<Rightarrow> int \<Rightarrow> nat" where
  "clamp_index n i = (if i < 0 then nat (max 0 (int n + i)) else min (nat i) n)"

definition slice :: "string \<Rightarrow> int \<Rightarrow> int \<Rightarrow> string" where
  "slice s a b =
     (let i = clamp_index (length s) a; j = clamp_index (length s) b
      in take (j - i) (drop i s))"

text \<open>\<open>s.rfind(c)\<close>: the offset of the last \<open>c\<close> in \<open>s\<close>, or \<open>-1\<close>.\<close>

definition rfind :: "string \<Rightarrow> char \<Rightarrow> int" where
  "rfind s c =
     (if c \<in> set s then int (length s) - 1 - int (length (takeWhile (\<lambda>x. x \<noteq> c) (rev s)))
      else - 1)"

text \<open>\<open>sep.join(parts)\<close>.\<close>

fun join :: "string \<Rightarrow> string list \<Rightarrow> string" where
  "join sep [] = []"
| "join sep [x] = x"
| "join sep (x # y # ys) = x @ sep @ join sep (y # ys)"

text \<open>The character classes \<open>[:\s]\<close>, \<open>[\w\-]\<close> and \<open>[\$\d,]\<close>.\<close>

definition colon_or_space :: "char \<Rightarrow> bool" where
  "colon_or_space c \<longleftrightarrow> c = CHR '':'' \<or> is_space c"

definition word_or_dash :: "char \<Rightarrow> bool" where
  "word_or_dash c \<longleftrightarrow> is_word c \<or> c = CHR ''-''"

definition amount_char :: "char \<Rightarrow> bool" where
  "amount_char c \<longleftrightarrow> c = CHR ''$'' \<or> is_digit c \<or> c = CHR '',''"

text \<open>The nine priority patterns, searched with \<open>re.IGNORECASE\<close>.\<close>

definition pat_certificate_number :: regex where
  "pat_certificate_number =
     seqs [lit_ci ''certificate'', Plus is_space, lit_ci ''number'', Plus colon_or_space, Plus is_word]"

definition pat_policy_number :: regex where
  "pat_policy_number =
     seqs [lit_ci ''policy'', Plus is_space, lit_ci ''number'', Plus colon_or_space, Plus word_or_dash]"

definition pat_effective_date :: regex where
  "pat_effective_date =
     seqs [lit_ci ''effective'', Plus is_space, lit_ci ''date'', Plus colon_or_space, Plus is_digit]"

definition pat_expiration_date :: regex where
  "pat_expiration_date =
     seqs [lit_ci ''expiration'', Plus is_space, lit_ci ''date'', Plus colon_or_space, Plus is_digit]"

definition pat_general_aggregate :: regex where
  "pat_general_aggregate =
     seqs [lit_ci ''general'', Plus is_space, lit_ci ''aggregate'', Plus colon_or_space, Plus amount_char]"

definition pat_each_occurrence :: regex where
  "pat_each_occurrence =
     seqs [lit_ci ''each'', Plus is_space, lit_ci ''occurrence'', Plus colon_or_space, Plus amount_char]"

definition pat_workers_compensation :: regex where
  "pat_workers_compensation = seqs [lit_ci ''workers'', Plus is_space, lit_ci ''compensation'']"

definition pat_liability_limits :: regex where
  "pat_liability_limits =
     seqs [lit_ci ''liability'', Plus is_space, lit_ci ''limit'', opt (lit_ci ''s'')]"

definition pat_certificate_holder :: regex where
  "pat_certificate_holder = seqs [lit_ci ''certificate'', Plus is_space, lit_ci ''holder'']"

definition priority_patterns :: "regex list" where
  "priority_patterns =
     [pat_certificate_number, pat_policy_number, pat_effective_date, pat_expiration_date,
      pat_general_aggregate, pat_each_occurrence, pat_workers_compensation,
      pat_liability_limits, pat_certificate_holder]"

text \<open>
  The windows around the matches of one pattern: 100 characters before the match and
  200 after it, with the matched text.
\<close>

definition pattern_sections :: "string \<Rightarrow> regex \<Rightarrow> (int \<times> int \<times> string) list" where
  "pattern_sections text pattern =
     map (\<lambda>(match_start, match_end).
            (max 0 (match_start - 100), min (int (length text)) (match_end + 200),
             slice text match_start match_end))
         (finditer pattern 0 text)"

definition priority_sections :: "string \<Rightarrow> (int \<times> int \<times> string) list" where
  "priority_sections text = concat (map (pattern_sections text) priority_patterns)"

text \<open>The loop that merges the sorted windows lying at most 50 characters apart.\<close>

fun merge_sections :: "int \<Rightarrow> int \<Rightarrow> (int \<times> int \<times> string) list \<Rightarrow> (int \<times> int) list" where
  "merge_sections current_start current_end [] = [(current_start, current_end)]"
| "merge_sections current_start current_end ((start, end, m) # rest) =
     (if start \<le> current_end + 50 then merge_sections current_start (max current_end end) rest
      else (current_start, current_end) # merge_sections start end rest)"

text \<open>
  The loop that collects the windows while they fit; the first window that does not
  fit is cut to the remaining budget if more than 100 characters remain, and ends the
  loop.
\<close>

fun chunk_parts :: "string \<Rightarrow> int \<Rightarrow> int \<Rightarrow> (int \<times> int) list \<Rightarrow> string list" where
  "chunk_parts text max_chars total_length [] = []"
| "chunk_parts text max_chars total_length ((start, end) # rest) =
     (let section = slice text start end
      in if total_length + int (length section) \<le> max_chars
         then section # chunk_parts text max_chars (total_length + int (length section)) rest
         else
           (let remaining = max_chars - total_length
            in if remaining > 100 then [slice section 0 remaining] else []))"

text \<open>
  \<open>intelligent_chunking\<close>. The comparison \<open>last_sentence > max_chars * 0.7\<close> is taken in exact
  arithmetic.
\<close>

definition intelligent_chunking :: "string \<Rightarrow> int \<Rightarrow> string" where
  "intelligent_chunking text max_chars =
     (if int (length text) \<le> max_chars then text
      else
        (case sort (priority_sections text) of
           (current_start, current_end, m) # rest \<Rightarrow>
             join '' ... '' (chunk_parts text max_chars 0 (merge_sections current_start current_end rest))
         | [] \<Rightarrow>
             (let truncated = slice text 0 max_chars;
                  last_sentence = rfind truncated CHR ''.''
              in if real_of_int last_sentence > real_of_int max_chars * 0.7
                 then slice truncated 0 (last_sentence + 1)
                 else truncated)))"

text \<open>
  A text of 436 characters with two mentions of the certificate holder, 400 characters
  apart.
\<close>

definition two_holders_text :: string where
  "two_holders_text = ''certificate holder'' @ replicate 400 CHR ''x'' @ ''certificate holder''"

section \<open>Rate limiter\<close>

text \<open>
  A reading of \<open>datetime.now()\<close> is modelled as an integer number of microseconds, the
  resolution of \<open>datetime\<close>; \<open>timedelta(minutes=1)\<close> is then sixty million.
\<close>

type_synonym time = int

definition minute :: int where
  "minute = 60000000"

text \<open>
  \<open>APIRateLimiter.acquire\<close>, run under the limiter's lock: the state is the list
  \<open>call_times\<close>, \<open>limit\<close> is \<open>config.api_rate_limit_per_minute\<close> and \<open>now\<close> the clock reading
  of the call. The result is the answer and the new list.
\<close>

definition acquire :: "int \<Rightarrow> time \<Rightarrow> time list \<Rightarrow> bool \<times> time list" where
  "acquire limit now call_times =
     (let call_times = [t \<leftarrow> call_times. now - t < minute]
      in if int (length call_times) < limit then (True, call_times @ [now])
         else (False, call_times))"

text \<open>Successive calls of \<open>acquire\<close>, one for each clock reading, with their answers.\<close>

fun acquire_all :: "int \<Rightarrow> time list \<Rightarrow> time list \<Rightarrow> bool list \<times> time list" where
  "acquire_all limit call_times [] = ([], call_times)"
| "acquire_all limit call_times (now # nows) =
     (case acquire limit now call_times of
        (granted, call_times') \<Rightarrow>
          (case acquire_all limit call_times' nows of
             (answers, final) \<Rightarrow> (granted # answers, final)))"

text \<open>
  The limiter as the specification words it: a call is granted exactly when fewer than
  \<open>limit\<close> of the grants recorded so far lie within the trailing sixty seconds. Here
  \<open>grants\<close> holds every grant ever recorded; nothing is pruned.
\<close>

fun window_grants :: "int \<Rightarrow> time list \<Rightarrow> time list \<Rightarrow> bool list" where
  "window_grants limit grants [] = []"
| "window_grants limit grants (now # nows) =
     (let granted = (int (length [t \<leftarrow> grants. now - t < minute]) < limit)
      in granted # window_grants limit (if granted then grants @ [now] else grants) nows)"

section \<open>Candidates and exceptions\<close>

text \<open>
  The candidate is whatever \<open>json.loads\<close> returns. A \<open>dict\<close> is an association list read
  with \<^const>\<open>map_of\<close>; a \<open>float\<close> is represented by the real number it stands for.
\<close>

datatype json =
    JNull
  | JBool bool
  | JInt int
  | JFloat real
  | JStr string
  | JArr "json list"
  | JObj "(string \<times> json) list"

text \<open>Python's truth value of such a value.\<close>

fun truthy :: "json \<Rightarrow> bool" where
  "truthy JNull = False"
| "truthy (JBool b) = b"
| "truthy (JInt n) = (n \<noteq> 0)"
| "truthy (JFloat x) = (x \<noteq> 0)"
| "truthy (JStr s) = (s \<noteq> [])"
| "truthy (JArr xs) = (xs \<noteq> [])"
| "truthy (JObj kvs) = (kvs \<noteq> [])"

text \<open>
  The truth value of \<open>str(v).strip()\<close>: a text must hold a character that is not
  whitespace; the \<open>str\<close> of any other value (\<open>None\<close>, \<open>True\<close>, a number, a list, a dict) is
  never blank.
\<close>

fun str_strip_nonempty :: "json \<Rightarrow> bool" where
  "str_strip_nonempty (JStr s) = (strip s \<noteq> [])"
| "str_strip_nonempty v = True"

text \<open>
  The exceptions that the program raises or meets, each with its message. The first
  four are the subclasses of \<open>ValidationError\<close>.
\<close>

datatype py_exn =
    MissingFieldError string
  | TemporalError string
  | FormatError string
  | ConsensusError string
  | is_ValueError: ValueError string
  | TypeError string
  | AttributeError string
  | KeyError string
  | IndexError string
  | is_JSONDecodeError: JSONDecodeError string
  | HTTPException string
  | OtherException string

fun message :: "py_exn \<Rightarrow> string" where
  "message (MissingFieldError m) = m"
| "message (TemporalError m) = m"
| "message (FormatError m) = m"
| "message (ConsensusError m) = m"
| "message (ValueError m) = m"
| "message (TypeError m) = m"
| "message (AttributeError m) = m"
| "message (KeyError m) = m"
| "message (IndexError m) = m"
| "message (JSONDecodeError m) = m"
| "message (HTTPException m) = m"
| "message (OtherException m) = m"

fun is_validation_error :: "py_exn \<Rightarrow> bool" where
  "is_validation_error (MissingFieldError m) = True"
| "is_validation_error (TemporalError m) = True"
| "is_validation_error (FormatError m) = True"
| "is_validation_error (ConsensusError m) = True"
| "is_validation_error e = False"

text \<open>\<open>d.get(key, dflt)\<close> on a value; only a dict has the method.\<close>

definition get :: "json \<Rightarrow> string \<Rightarrow> json \<Rightarrow> py_exn + json" where
  "get d key dflt =
     (case d of
        JObj kvs \<Rightarrow> Inr (case map_of kvs key of None \<Rightarrow> dflt | Some v \<Rightarrow> v)
      | _ \<Rightarrow> Inl (AttributeError ''object has no attribute 'get' ''))"

text \<open>\<open>s.split(sep)\<close> for a separator of one character.\<close>

fun split :: "char \<Rightarrow> string \<Rightarrow> string list" where
  "split sep [] = [[]]"
| "split sep (c # cs) =
     (if c = sep then [] # split sep cs
      else (case split sep cs of [] \<Rightarrow> [[c]] | w # ws \<Rightarrow> (c # w) # ws))"

text \<open>\<open>sub in text\<close> for two texts.\<close>

fun starts_with :: "string \<Rightarrow> string \<Rightarrow> bool" where
  "starts_with text [] = True"
| "starts_with [] (c # sub) = False"
| "starts_with (t # text) (c # sub) = (t = c \<and> starts_with text sub)"

fun contains :: "string \<Rightarrow> string \<Rightarrow> bool" where
  "contains [] sub = (sub = [])"
| "contains (t # text) sub = (starts_with (t # text) sub \<or> contains text sub)"

section \<open>Validation pipeline\<close>

subsection \<open>Completeness\<close>

text \<open>The loop of \<open>get_nested_value\<close> over the keys of the path.\<close>

fun descend :: "json \<Rightarrow> string list \<Rightarrow> json option" where
  "descend current [] = Some current"
| "descend current (key # keys) =
     (case current of
        JObj kvs \<Rightarrow> (case map_of kvs key of None \<Rightarrow> None | Some v \<Rightarrow> descend v keys)
      | _ \<Rightarrow> None)"

definition get_nested_value :: "json \<Rightarrow> string \<Rightarrow> json option" where
  "get_nested_value data path =
     (case descend data (split CHR ''.'' path) of
        None \<Rightarrow> None
      | Some current \<Rightarrow> if truthy current \<and> str_strip_nonempty current then Some current else None)"

definition required_paths :: "string list" where
  "required_paths =
     [''certificate_number'',
      ''certificate_information.certificate_type'',
      ''certificate_information.issued_date'',
      ''policies.commercial_general_liability.policy_number'',
      ''policies.workers_compensation_and_employers_liability.policy_number'']"

definition validate_required_fields :: "json \<Rightarrow> bool" where
  "validate_required_fields data = list_all (\<lambda>path. get_nested_value data path \<noteq> None) required_paths"

subsection \<open>Consensus\<close>

text \<open>
  \<open>consensus_check\<close>: every exception inside it is caught and answered with \<open>False\<close>. The
  test \<open>cert_number in fitz_text\<close> raises \<open>TypeError\<close> unless \<open>cert_number\<close> is a text.
\<close>

definition consensus_check :: "json \<Rightarrow> string \<Rightarrow> string \<Rightarrow> bool" where
  "consensus_check extracted_data fitz_text plumber_text =
     (case get extracted_data ''certificate_number'' (JStr []) of
        Inl e \<Rightarrow> False
      | Inr cert_number \<Rightarrow>
          if truthy cert_number then
            (case cert_number of
               JStr s \<Rightarrow> if \<not> (contains fitz_text s \<or> contains plumber_text s) then False else True
             | _ \<Rightarrow> False)
          else True)"

subsection \<open>Temporal\<close>

text \<open>
  \<open>datetime.strptime(s, "%Y-%m-%d")\<close>. The library turns the format into the pattern
  \<open>(\d\d\d\d)-(1[0-2]|0[1-9]|[1-9])-(3[0-1]|[1-2]\d|0[1-9]|[1-9]| [1-9])\<close>, matches it at the
  start of the text, refuses a text with characters left over, reads the three numbers
  and builds the date, which fails for year \<open>0\<close> and for a day the month does not have.
  Every failure is a \<open>ValueError\<close>. A date is the triple of year, month and day; two
  results of \<open>strptime\<close> compare as their triples do.
\<close>

type_synonym date = "nat \<times> nat \<times> nat"

definition between :: "char \<Rightarrow> char \<Rightarrow> char \<Rightarrow> bool" where
  "between lo hi c \<longleftrightarrow> code lo \<le> code c \<and> code c \<le> code hi"

definition strptime_regex :: regex where
  "strptime_regex =
     seqs [Cls is_digit, Cls is_digit, Cls is_digit, Cls is_digit, chr CHR ''-'',
           Alt (Seq (chr CHR ''1'') (Cls (between CHR ''0'' CHR ''2'')))
             (Alt (Seq (chr CHR ''0'') (Cls (between CHR ''1'' CHR ''9'')))
                (Cls (between CHR ''1'' CHR ''9''))),
           chr CHR ''-'',
           Alt (Seq (chr CHR ''3'') (Cls (between CHR ''0'' CHR ''1'')))
             (Alt (Seq (Cls (between CHR ''1'' CHR ''2'')) (Cls is_digit))
                (Alt (Seq (chr CHR ''0'') (Cls (between CHR ''1'' CHR ''9'')))
                   (Alt (Cls (between CHR ''1'' CHR ''9''))
                      (Seq (chr CHR '' '') (Cls (between CHR ''1'' CHR ''9''))))))]"

text \<open>\<open>int(s)\<close> for a text of decimal digits, blanks around them ignored.\<close>

definition decimal :: "string \<Rightarrow> nat" where
  "decimal s = foldl (\<lambda>n c. 10 * n + (code c - 48)) 0 (strip s)"

definition leap_year :: "nat \<Rightarrow> bool" where
  "leap_year y \<longleftrightarrow> y mod 4 = 0 \<and> (y mod 100 \<noteq> 0 \<or> y mod 400 = 0)"

definition days_in_month :: "nat \<Rightarrow> nat \<Rightarrow> nat" where
  "days_in_month y m =
     (if m = 2 then (if leap_year y then 29 else 28)
      else if m = 4 \<or> m = 6 \<or> m = 9 \<or> m = 11 then 30 else 31)"

definition strptime :: "string \<Rightarrow> py_exn + date" where
  "strptime s =
     (case re_match strptime_regex s of
        None \<Rightarrow> Inl (ValueError ''time data does not match format'')
      | Some n \<Rightarrow>
          if n \<noteq> length s then Inl (ValueError ''unconverted data remains'')
          else
            let year = decimal (take 4 s);
                rest = drop 5 s;
                month = decimal (takeWhile (\<lambda>c. c \<noteq> CHR ''-'') rest);
                day = decimal (drop 1 (dropWhile (\<lambda>c. c \<noteq> CHR ''-'') rest))
            in if year < 1 then Inl (ValueError ''year is out of range'')
               else if days_in_month year month < day then Inl (ValueError ''day is out of range for month'')
               else Inr (year, month, day))"

text \<open>\<open>strptime\<close> on a value of the candidate: anything but a text is a \<open>TypeError\<close>.\<close>

definition strptime_value :: "json \<Rightarrow> py_exn + date" where
  "strptime_value v =
     (case v of
        JStr s \<Rightarrow> strptime s
      | _ \<Rightarrow> Inl (TypeError ''strptime() argument 1 must be str''))"

text \<open>
  The loop that parses the dates that are present. \<open>Inr None\<close> is the \<open>return False\<close> of the
  inner handler of \<open>ValueError\<close>; any other exception leaves the loop.
\<close>

fun parse_dates ::
  "(string \<times> json option) list \<Rightarrow> (string \<rightharpoonup> date) \<Rightarrow> py_exn + (string \<rightharpoonup> date) option" where
  "parse_dates [] dates = Inr (Some dates)"
| "parse_dates ((name, None) # rest) dates = parse_dates rest dates"
| "parse_dates ((name, Some date_str) # rest) dates =
     (case strptime_value date_str of
        Inr d \<Rightarrow> parse_dates rest (dates(name \<mapsto> d))
      | Inl e \<Rightarrow> if is_ValueError e then Inr None else Inl e)"

definition date_fields :: "json \<Rightarrow> (string \<times> json option) list" where
  "date_fields data =
     [(''issued'', get_nested_value data ''certificate_information.issued_date''),
      (''cgl_effective'', get_nested_value data ''policies.commercial_general_liability.effective_date''),
      (''cgl_expiration'', get_nested_value data ''policies.commercial_general_liability.expiration_date''),
      (''wc_effective'',
         get_nested_value data ''policies.workers_compensation_and_employers_liability.effective_date''),
      (''wc_expiration'',
         get_nested_value data ''policies.workers_compensation_and_employers_liability.expiration_date'')]"

text \<open>The comparison \<open>dates[a] >= dates[b]\<close> when both keys are in \<open>dates\<close>.\<close>

definition not_before :: "(string \<rightharpoonup> date) \<Rightarrow> string \<Rightarrow> string \<Rightarrow> bool" where
  "not_before dates a b =
     (case (dates a, dates b) of
        (Some x, Some y) \<Rightarrow> x \<ge> y
      | _ \<Rightarrow> False)"

text \<open>\<open>validate_date_sequence\<close>: an exception that leaves the body is answered with \<open>False\<close>.\<close>

definition validate_date_sequence :: "json \<Rightarrow> bool" where
  "validate_date_sequence data =
     (case parse_dates (date_fields data) Map.empty of
        Inl e \<Rightarrow> False
      | Inr None \<Rightarrow> False
      | Inr (Some dates) \<Rightarrow>
          if not_before dates ''cgl_effective'' ''cgl_expiration'' then False
          else if not_before dates ''wc_effective'' ''wc_expiration'' then False
          else True)"

subsection \<open>Format\<close>

text \<open>
  The four patterns of \<open>validate_certificate_number_format\<close>. They are used with
  \<open>re.match\<close>, which matches at the start of the text, where \<open>^\<close> holds.
\<close>

definition upper_or_digit :: "char \<Rightarrow> bool" where
  "upper_or_digit c \<longleftrightarrow> is_upper c \<or> is_digit c"

definition certificate_patterns :: "regex list" where
  "certificate_patterns =
     [seqs [Rep (Cls upper_or_digit) 8 20, Eol],
      seqs [Rep (Cls is_upper) 2 4, chr CHR ''-'', Rep (Cls is_digit) 6 12, Eol],
      seqs [Rep (Cls is_digit) 8 15, Eol],
      seqs [Rep (Cls upper_or_digit) 2 6, chr CHR ''-'', Rep (Cls upper_or_digit) 6 12, Eol]]"

text \<open>
  \<open>validate_certificate_number_format\<close>: a value that is not false and not a text has no
  method \<open>strip\<close>.
\<close>

definition validate_certificate_number_format :: "json \<Rightarrow> py_exn + bool" where
  "validate_certificate_number_format cert_number =
     (if \<not> truthy cert_number then Inr False
      else
        (case cert_number of
           JStr s \<Rightarrow> Inr (list_ex (\<lambda>pattern. re_match pattern (strip s) \<noteq> None) certificate_patterns)
         | _ \<Rightarrow> Inl (AttributeError ''object has no attribute 'strip' '')))"

subsection \<open>Confidence\<close>

text \<open>
  \<open>re.sub(r'[^\d]', '', v)\<close> and \<open>int(s)\<close> of the result. The limit that recent versions of
  Python put on the number of digits \<open>int\<close> converts is not modelled.
\<close>

definition only_digits :: "json \<Rightarrow> py_exn + string" where
  "only_digits v =
     (case v of
        JStr s \<Rightarrow> Inr (filter is_digit s)
      | _ \<Rightarrow> Inl (TypeError ''expected string or bytes-like object''))"

definition py_int :: "string \<Rightarrow> py_exn + int" where
  "py_int s = (if s = [] then Inl (ValueError ''invalid literal for int()'') else Inr (int (decimal s)))"

text \<open>The body of the outer \<open>try\<close> of \<open>validate_policy_limits\<close>, for limits that are present.\<close>

definition check_limits :: "json \<Rightarrow> py_exn + bool" where
  "check_limits cgl_limits =
     (case get cgl_limits ''each_occurrence'' (JStr []) of
        Inl e \<Rightarrow> Inl e
      | Inr occurrence \<Rightarrow>
     (case get cgl_limits ''general_aggregate'' (JStr []) of
        Inl e \<Rightarrow> Inl e
      | Inr aggregate \<Rightarrow>
          if truthy occurrence \<and> truthy aggregate then
            (case only_digits occurrence of Inl e \<Rightarrow> Inl e | Inr occurrence_digits \<Rightarrow>
            (case py_int occurrence_digits of Inl e \<Rightarrow> Inr False | Inr occurrence_val \<Rightarrow>
            (case only_digits aggregate of Inl e \<Rightarrow> Inl e | Inr aggregate_digits \<Rightarrow>
            (case py_int aggregate_digits of Inl e \<Rightarrow> Inr False | Inr aggregate_val \<Rightarrow>
               if occurrence_val > 0 \<and> aggregate_val > 0 then
                 (if aggregate_val < occurrence_val then Inr False
                  else if \<not> (100000 \<le> occurrence_val \<and> occurrence_val \<le> 10000000) then Inr False
                  else Inr True)
               else Inr True))))
          else Inr True))"

definition validate_policy_limits :: "json \<Rightarrow> bool" where
  "validate_policy_limits data =
     (case get_nested_value data ''policies.commercial_general_liability.limits'' of
        None \<Rightarrow> True
      | Some cgl_limits \<Rightarrow> (case check_limits cgl_limits of Inl e \<Rightarrow> False | Inr ok \<Rightarrow> ok))"

definition confidence_fields :: "string list" where
  "confidence_fields =
     [''certificate_number'',
      ''policies.commercial_general_liability.policy_number'',
      ''policies.workers_compensation_and_employers_liability.policy_number'']"

text \<open>
  The list \<open>confidence_factors\<close> of \<open>calculate_extraction_confidence\<close>: name, score and
  weight of each factor. Scores are exact reals, not floating-point numbers.
\<close>

definition confidence_factors :: "json \<Rightarrow> string \<Rightarrow> py_exn + (string \<times> real \<times> real) list" where
  "confidence_factors data pdf_text =
     (let filled_required = length [field \<leftarrow> confidence_fields. get_nested_value data field \<noteq> None];
          completeness_score = real filled_required / real (length confidence_fields);
          date_valid = validate_date_sequence data
      in case get data ''certificate_number'' (JStr []) of
           Inl e \<Rightarrow> Inl e
         | Inr cert_number \<Rightarrow>
        (case validate_certificate_number_format cert_number of
           Inl e \<Rightarrow> Inl e
         | Inr cert_valid \<Rightarrow>
             let text_quality = min 1 (real (length (strip pdf_text)) / 1000);
                 limits_valid = validate_policy_limits data
             in Inr [(''completeness'', completeness_score, 0.3),
                     (''dates'', if date_valid then 1 else 0.3, 0.25),
                     (''cert_format'', if cert_valid then 1 else 0.2, 0.2),
                     (''text_quality'', text_quality, 0.15),
                     (''limits'', if limits_valid then 1 else 0.5, 0.1)]))"

definition calculate_extraction_confidence :: "json \<Rightarrow> string \<Rightarrow> py_exn + real" where
  "calculate_extraction_confidence data pdf_text =
     (case confidence_factors data pdf_text of
        Inl e \<Rightarrow> Inl e
      | Inr factors \<Rightarrow> Inr (sum_list (map (\<lambda>(name, score, weight). score * weight) factors)))"

subsection \<open>The pipeline\<close>

text \<open>\<open>d[key] = v\<close> on the association list of a dict.\<close>

fun dict_set :: "(string \<times> json) list \<Rightarrow> string \<Rightarrow> json \<Rightarrow> (string \<times> json) list" where
  "dict_set [] key v = [(key, v)]"
| "dict_set ((k, w) # kvs) key v = (if k = key then (k, v) # kvs else (k, w) # dict_set kvs key v)"

text \<open>
  \<open>validate_extraction\<close>. \<open>timestamp\<close> is the text of \<open>datetime.now().isoformat()\<close>. The message
  of the \<open>FormatError\<close> ends with the certificate number, which is a text when the
  format check has answered.
\<close>

definition validate_extraction ::
  "json \<Rightarrow> string \<Rightarrow> string \<Rightarrow> string \<Rightarrow> string \<Rightarrow> py_exn + json" where
  "validate_extraction raw_data pdf_text fitz_text plumber_text timestamp =
     (if \<not> validate_required_fields raw_data then
        Inl (MissingFieldError ''Required fields missing from extraction'')
      else if \<not> consensus_check raw_data fitz_text plumber_text then
        Inl (ConsensusError ''Extraction consensus check failed'')
      else if \<not> validate_date_sequence raw_data then
        Inl (TemporalError ''Date sequence validation failed'')
      else
        (case get raw_data ''certificate_number'' (JStr []) of
           Inl e \<Rightarrow> Inl e
         | Inr cert_number \<Rightarrow>
        (case (if truthy cert_number then validate_certificate_number_format cert_number else Inr True) of
           Inl e \<Rightarrow> Inl e
         | Inr format_ok \<Rightarrow>
             if \<not> format_ok then
               Inl (FormatError (''Invalid certificate number format: '' @ (case cert_number of JStr s \<Rightarrow> s | _ \<Rightarrow> [])))
             else
               (case calculate_extraction_confidence raw_data pdf_text of
                  Inl e \<Rightarrow> Inl e
                | Inr confidence \<Rightarrow>
                    (case raw_data of
                       JObj kvs \<Rightarrow>
                         Inr (JObj (dict_set kvs ''_metadata''
                                (JObj [(''confidence_score'', JFloat confidence),
                                       (''validation_passed'', JBool True),
                                       (''extraction_timestamp'', JStr timestamp)])))
                     | _ \<Rightarrow> Inl (AttributeError ''object has no attribute 'copy' ''))))))"

subsection \<open>The stages in the words of the specification\<close>

text \<open>
  A path resolves to a non-empty trimmed value when its keys lead through nested
  objects to a value that is not empty (not \<open>None\<close>, \<open>False\<close>, zero, the empty text, list or
  dict) and whose trimmed text is not empty either.
\<close>

definition resolves :: "json \<Rightarrow> string \<Rightarrow> bool" where
  "resolves data path =
     (case descend data (split CHR ''.'' path) of
        None \<Rightarrow> False
      | Some v \<Rightarrow> truthy v \<and> str_strip_nonempty v)"

text \<open>
  The date at a path, when the field is present and parses; a field that is present but
  does not parse; and two fields that both parse, the first not strictly earlier than
  the second.
\<close>

definition field_date :: "json option \<Rightarrow> date option" where
  "field_date v =
     (case v of
        None \<Rightarrow> None
      | Some x \<Rightarrow> (case strptime_value x of Inl e \<Rightarrow> None | Inr d \<Rightarrow> Some d))"

definition parsed_date :: "json \<Rightarrow> string \<Rightarrow> date option" where
  "parsed_date data path = field_date (get_nested_value data path)"

definition unparsable :: "json \<Rightarrow> string \<Rightarrow> bool" where
  "unparsable data path \<longleftrightarrow> get_nested_value data path \<noteq> None \<and> parsed_date data path = None"

definition out_of_order :: "json \<Rightarrow> string \<Rightarrow> string \<Rightarrow> bool" where
  "out_of_order data effective expiration =
     (case (parsed_date data effective, parsed_date data expiration) of
        (Some x, Some y) \<Rightarrow> \<not> x < y
      | _ \<Rightarrow> False)"

definition date_paths :: "string list" where
  "date_paths =
     [''certificate_information.issued_date'',
      ''policies.commercial_general_liability.effective_date'',
      ''policies.commercial_general_liability.expiration_date'',
      ''policies.workers_compensation_and_employers_liability.effective_date'',
      ''policies.workers_compensation_and_employers_liability.expiration_date'']"

text \<open>
  A text in the strict shape \<open>YYYY-MM-DD\<close>: four digits, a dash, two digits, a dash, two
  digits, naming a day of the calendar.
\<close>

definition strict_ymd :: "string \<Rightarrow> bool" where
  "strict_ymd s \<longleftrightarrow>
     length s = 10 \<and>
     list_all is_digit (take 4 s) \<and> s ! 4 = CHR ''-'' \<and>
     list_all is_digit (take 2 (drop 5 s)) \<and> s ! 7 = CHR ''-'' \<and>
     list_all is_digit (drop 8 s) \<and>
     1 \<le> decimal (take 4 s) \<and>
     1 \<le> decimal (take 2 (drop 5 s)) \<and> decimal (take 2 (drop 5 s)) \<le> 12 \<and>
     1 \<le> decimal (drop 8 s) \<and>
     decimal (drop 8 s) \<le> days_in_month (decimal (take 4 s)) (decimal (take 2 (drop 5 s)))"

text \<open>
  The four shapes of a certificate number: a run of \<open>lo\<close> to \<open>hi\<close> characters of one class,
  or two such runs with a dash between them.
\<close>

definition run :: "(char \<Rightarrow> bool) \<Rightarrow> nat \<Rightarrow> nat \<Rightarrow> string \<Rightarrow> bool" where
  "run P lo hi s \<longleftrightarrow> lo \<le> length s \<and> length s \<le> hi \<and> list_all P s"

definition dashed ::
  "(char \<Rightarrow> bool) \<Rightarrow> nat \<Rightarrow> nat \<Rightarrow> (char \<Rightarrow> bool) \<Rightarrow> nat \<Rightarrow> nat \<Rightarrow> string \<Rightarrow> bool" where
  "dashed P lo hi Q lo' hi' s \<longleftrightarrow>
     (let prefix = takeWhile (\<lambda>c. c \<noteq> CHR ''-'') s
      in length prefix < length s \<and> run P lo hi prefix \<and> run Q lo' hi' (drop (length prefix + 1) s))"

text \<open>The shapes as the specification words them, over letters of either case.\<close>

definition is_letter :: "char \<Rightarrow> bool" where
  "is_letter c \<longleftrightarrow> is_upper c \<or> is_lower c"

definition is_alphanumeric :: "char \<Rightarrow> bool" where
  "is_alphanumeric c \<longleftrightarrow> is_letter c \<or> is_digit c"

definition certificate_shape :: "string \<Rightarrow> bool" where
  "certificate_shape s \<longleftrightarrow>
     run is_alphanumeric 8 20 s \<or>
     dashed is_letter 2 4 is_digit 6 12 s \<or>
     run is_digit 8 15 s \<or>
     dashed is_alphanumeric 2 6 is_alphanumeric 6 12 s"

text \<open>The same shapes over upper-case letters only.\<close>

definition upper_certificate_shape :: "string \<Rightarrow> bool" where
  "upper_certificate_shape s \<longleftrightarrow>
     run upper_or_digit 8 20 s \<or>
     dashed is_upper 2 4 is_digit 6 12 s \<or>
     run is_digit 8 15 s \<or>
     dashed upper_or_digit 2 6 upper_or_digit 6 12 s"

text \<open>
  For the proofs about the loop over the date fields: a field that is present and does
  not parse, and the entry that a field adds to \<open>dates\<close>.
\<close>

definition field_bad :: "json option \<Rightarrow> bool" where
  "field_bad v \<longleftrightarrow> v \<noteq> None \<and> field_date v = None"

definition record_date :: "string \<times> json option \<Rightarrow> (string \<rightharpoonup> date) \<Rightarrow> (string \<rightharpoonup> date)" where
  "record_date f dates = (case field_date (snd f) of None \<Rightarrow> dates | Some d \<Rightarrow> dates(fst f \<mapsto> d))"


text \<open>
  A candidate that is complete and whose workers-compensation policy expires before it
  takes effect.
\<close>

definition reversed_dates_candidate :: json where
  "reversed_dates_candidate =
     JObj [(''certificate_number'', JStr ''AB-123456''),
           (''certificate_information'',
              JObj [(''certificate_type'', JStr ''COI''), (''issued_date'', JStr ''2024-01-01'')]),
           (''policies'',
              JObj [(''commercial_general_liability'', JObj [(''policy_number'', JStr ''GL-1'')]),
                    (''workers_compensation_and_employers_liability'',
                       JObj [(''policy_number'', JStr ''WC-1''),
                             (''effective_date'', JStr ''2024-01-01''),
                             (''expiration_date'', JStr ''2023-01-01'')])])]"

text \<open>A complete candidate whose issue date is written without leading zeros.\<close>

definition short_date_candidate :: json where
  "short_date_candidate =
     JObj [(''certificate_number'', JStr ''AB-123456''),
           (''certificate_information'',
              JObj [(''certificate_type'', JStr ''COI''), (''issued_date'', JStr ''2024-1-5'')]),
           (''policies'',
              JObj [(''commercial_general_liability'', JObj [(''policy_number'', JStr ''GL-1'')]),
                    (''workers_compensation_and_employers_liability'',
                       JObj [(''policy_number'', JStr ''WC-1'')])])]"

text \<open>For the proofs about patterns: the search finds some match.\<close>

definition accepts :: "regex list \<Rightarrow> string \<Rightarrow> bool" where
  "accepts rs s \<longleftrightarrow> backtrack rs s \<noteq> None"

text \<open>A complete candidate with a well-formed and one with a malformed certificate number.\<close>

definition candidate_numbered :: "string \<Rightarrow> json" where
  "candidate_numbered cert_number =
     JObj [(''certificate_number'', JStr cert_number),
           (''certificate_information'',
              JObj [(''certificate_type'', JStr ''COI''), (''issued_date'', JStr ''2024-01-01'')]),
           (''policies'',
              JObj [(''commercial_general_liability'', JObj [(''policy_number'', JStr ''GL-1'')]),
                    (''workers_compensation_and_employers_liability'',
                       JObj [(''policy_number'', JStr ''WC-1'')])])]"

section \<open>Content hash\<close>

text \<open>
  \<open>hashlib.md5(data).hexdigest()\<close>: the MD5 digest of a sequence of bytes as 32 hexadecimal
  digits. Bytes and 32-bit words are natural numbers, with the reduction modulo \<open>2^32\<close>
  written out. Each of the 64 steps is given by the mixing function it uses, the index
  of the message word, the rotation and the additive constant.
\<close>

unbundle bit_operations_syntax

definition md5_steps :: "(nat \<times> nat \<times> nat \<times> nat) list" where
  "md5_steps =
     [(0, 0, 7, 3614090360), (0, 1, 12, 3905402710),
      (0, 2, 17, 606105819), (0, 3, 22, 3250441966),
      (0, 4, 7, 4118548399), (0, 5, 12, 1200080426),
      (0, 6, 17, 2821735955), (0, 7, 22, 4249261313),
      (0, 8, 7, 1770035416), (0, 9, 12, 2336552879),
      (0, 10, 17, 4294925233), (0, 11, 22, 2304563134),
      (0, 12, 7, 1804603682), (0, 13, 12, 4254626195),
      (0, 14, 17, 2792965006), (0, 15, 22, 1236535329),
      (1, 1, 5, 4129170786), (1, 6, 9, 3225465664),
      (1, 11, 14, 643717713), (1, 0, 20, 3921069994),
      (1, 5, 5, 3593408605), (1, 10, 9, 38016083),
      (1, 15, 14, 3634488961), (1, 4, 20, 3889429448),
      (1, 9, 5, 568446438), (1, 14, 9, 3275163606),
      (1, 3, 14, 4107603335), (1, 8, 20, 1163531501),
      (1, 13, 5, 2850285829), (1, 2, 9, 4243563512),
      (1, 7, 14, 1735328473), (1, 12, 20, 2368359562),
      (2, 5, 4, 4294588738), (2, 8, 11, 2272392833),
      (2, 11, 16, 1839030562), (2, 14, 23, 4259657740),
      (2, 1, 4, 2763975236), (2, 4, 11, 1272893353),
      (2, 7, 16, 4139469664), (2, 10, 23, 3200236656),
      (2, 13, 4, 681279174), (2, 0, 11, 3936430074),
      (2, 3, 16, 3572445317), (2, 6, 23, 76029189),
      (2, 9, 4, 3654602809), (2, 12, 11, 3873151461),
      (2, 15, 16, 530742520), (2, 2, 23, 3299628645),
      (3, 0, 6, 4096336452), (3, 7, 10, 1126891415),
      (3, 14, 15, 2878612391), (3, 5, 21, 4237533241),
      (3, 12, 6, 1700485571), (3, 3, 10, 2399980690),
      (3, 10, 15, 4293915773), (3, 1, 21, 2240044497),
      (3, 8, 6, 1873313359), (3, 15, 10, 4264355552),
      (3, 6, 15, 2734768916), (3, 13, 21, 1309151649),
      (3, 4, 6, 4149444226), (3, 11, 10, 3174756917),
      (3, 2, 15, 718787259), (3, 9, 21, 3951481745)]"

definition w32 :: "nat \<Rightarrow> nat" where
  "w32 n = n mod 4294967296"

definition not32 :: "nat \<Rightarrow> nat" where
  "not32 x = 4294967295 - x"

definition rotate_left :: "nat \<Rightarrow> nat \<Rightarrow> nat" where
  "rotate_left c x = w32 (x * 2 ^ c) + x div 2 ^ (32 - c)"

definition md5_mix :: "nat \<Rightarrow> nat \<Rightarrow> nat \<Rightarrow> nat \<Rightarrow> nat" where
  "md5_mix kind b c d =
     (if kind = 0 then (b AND c) OR (not32 b AND d)
      else if kind = 1 then (d AND b) OR (not32 d AND c)
      else if kind = 2 then b XOR c XOR d
      else c XOR (b OR not32 d))"

fun md5_step ::
  "nat list \<Rightarrow> nat \<times> nat \<times> nat \<times> nat \<Rightarrow> nat \<times> nat \<times> nat \<times> nat \<Rightarrow> nat \<times> nat \<times> nat \<times> nat" where
  "md5_step m (a, b, c, d) (kind, g, s, k) =
     (d, w32 (b + rotate_left s (w32 (md5_mix kind b c d + a + k + m ! g))), b, c)"

definition md5_block :: "nat \<times> nat \<times> nat \<times> nat \<Rightarrow> nat list \<Rightarrow> nat \<times> nat \<times> nat \<times> nat" where
  "md5_block h m =
     (case h of (a0, b0, c0, d0) \<Rightarrow>
        (case foldl (md5_step m) h md5_steps of
           (a, b, c, d) \<Rightarrow> (w32 (a0 + a), w32 (b0 + b), w32 (c0 + c), w32 (d0 + d))))"

text \<open>Little-endian words from bytes and bytes from words.\<close>

fun words_le :: "nat list \<Rightarrow> nat list" where
  "words_le (b0 # b1 # b2 # b3 # bs) = (b0 + 256 * b1 + 65536 * b2 + 16777216 * b3) # words_le bs"
| "words_le bs = []"

definition bytes_le4 :: "nat \<Rightarrow> nat list" where
  "bytes_le4 n = [n mod 256, n div 256 mod 256, n div 65536 mod 256, n div 16777216 mod 256]"

definition bytes_le8 :: "nat \<Rightarrow> nat list" where
  "bytes_le8 n = bytes_le4 (n mod 4294967296) @ bytes_le4 (n div 4294967296)"

text \<open>
  The padding: the byte \<open>0x80\<close>, zero bytes up to 56 modulo 64, and the length of the
  message in bits as eight bytes.
\<close>

definition md5_pad :: "nat list \<Rightarrow> nat list" where
  "md5_pad bs =
     bs @ [128] @ replicate ((119 - length bs mod 64) mod 64) 0 @ bytes_le8 (8 * length bs)"

function md5_blocks :: "nat \<times> nat \<times> nat \<times> nat \<Rightarrow> nat list \<Rightarrow> nat \<times> nat \<times> nat \<times> nat" where
  "md5_blocks h bs =
     (if length bs < 64 then h else md5_blocks (md5_block h (words_le (take 64 bs))) (drop 64 bs))"
  by pat_completeness auto
termination
  by (relation "measure (\<lambda>(h, bs). length bs)") auto

definition hex_byte :: "nat \<Rightarrow> string" where
  "hex_byte b = [''0123456789abcdef'' ! (b div 16), ''0123456789abcdef'' ! (b mod 16)]"

definition md5_hexdigest :: "nat list \<Rightarrow> string" where
  "md5_hexdigest bs =
     (case md5_blocks (1732584193, 4023233417, 2562383102, 271733878) (md5_pad bs) of
        (a, b, c, d) \<Rightarrow> concat (map hex_byte (concat (map bytes_le4 [a, b, c, d]))))"

text \<open>
  The bytes of a file are the codes of its characters; \<open>s.encode()\<close> is the UTF-8
  encoding of a text, one byte for a code point below 128 and two bytes above.
\<close>

definition file_bytes :: "string \<Rightarrow> nat list" where
  "file_bytes content = map code content"

definition encode :: "string \<Rightarrow> nat list" where
  "encode s =
     concat (map (\<lambda>c. if code c < 128 then [code c]
                        else [192 + code c div 64, 128 + code c mod 64]) s)"

section \<open>Per-request workflows\<close>

text \<open>\<open>d[key]\<close> and the comparison \<open>v < r\<close> of a value with a float.\<close>

definition subscript :: "json \<Rightarrow> string \<Rightarrow> py_exn + json" where
  "subscript d key =
     (case d of
        JObj kvs \<Rightarrow> (case map_of kvs key of None \<Rightarrow> Inl (KeyError key) | Some v \<Rightarrow> Inr v)
      | _ \<Rightarrow> Inl (TypeError ''indices must be integers''))"

definition less_than :: "json \<Rightarrow> real \<Rightarrow> py_exn + bool" where
  "less_than v r =
     (case v of
        JFloat x \<Rightarrow> Inr (x < r)
      | JInt n \<Rightarrow> Inr (real_of_int n < r)
      | JBool b \<Rightarrow> Inr ((if b then 1 else 0) < r)
      | _ \<Rightarrow> Inl (TypeError '''<' not supported''))"

text \<open>\<open>validated_data["_metadata"]["confidence_score"]\<close>.\<close>

definition metadata_confidence :: "json \<Rightarrow> py_exn + json" where
  "metadata_confidence validated_data =
     (case subscript validated_data ''_metadata'' of
        Inl e \<Rightarrow> Inl e
      | Inr metadata \<Rightarrow> subscript metadata ''confidence_score'')"

subsection \<open>The synchronous workflow\<close>

text \<open>
  \<open>process_insurance_certificate\<close> from the point where \<open>json.loads\<close> has returned
  \<open>structured_data\<close>: the validation, its handler, and the outer handler of the function.
  The arguments are the values the function holds at that point: the path, the
  candidate, the three texts of the extraction, the output of the chunker, the duration
  of the model call, and the clock reading that \<open>validate_extraction\<close> takes.
\<close>

definition process_insurance_certificate ::
  "string \<Rightarrow> json \<Rightarrow> string \<Rightarrow> string \<Rightarrow> string \<Rightarrow> string \<Rightarrow> real \<Rightarrow> string \<Rightarrow> json" where
  "process_insurance_certificate file_path structured_data pdf_text fitz_text plumber_text
       optimized_text gemini_time timestamp =
     (let processing_error = (\<lambda>e.
            JObj [(''success'', JBool False),
                  (''error'', JStr (''Processing error: '' @ message e)),
                  (''file_path'', JStr file_path)])
      in case validate_extraction structured_data pdf_text fitz_text plumber_text timestamp of
           Inr validated_data \<Rightarrow>
             (case metadata_confidence validated_data of
                Inl e \<Rightarrow> processing_error e
              | Inr confidence_score \<Rightarrow>
             (case less_than confidence_score 0.7 of
                Inl e \<Rightarrow> processing_error e
              | Inr needs_review \<Rightarrow>
                  JObj [(''success'', JBool True),
                        (''data'', validated_data),
                        (''file_path'', JStr file_path),
                        (''processing_info'',
                           JObj [(''text_length'', JInt (int (length pdf_text))),
                                 (''optimized_text_length'', JInt (int (length optimized_text))),
                                 (''extraction_method'', JStr ''enhanced_hybrid''),
                                 (''gemini_processing_time'', JFloat gemini_time),
                                 (''confidence_score'', confidence_score),
                                 (''needs_human_review'', JBool needs_review)])]))
         | Inl ve \<Rightarrow>
             if is_validation_error ve then
               JObj [(''success'', JBool True),
                     (''data'', structured_data),
                     (''file_path'', JStr file_path),
                     (''validation_warnings'', JArr [JStr (message ve)]),
                     (''needs_human_review'', JBool True),
                     (''processing_info'',
                        JObj [(''text_length'', JInt (int (length pdf_text))),
                              (''extraction_method'', JStr ''enhanced_hybrid_unvalidated''),
                              (''gemini_processing_time'', JFloat gemini_time)])]
             else processing_error ve)"

subsection \<open>The queue worker\<close>

text \<open>
  What \<open>process_single_request\<close> meets outside itself: whether memory is within its limit,
  the bytes of a file, the result cache by key, the extraction of the three texts, the
  model's answer to a prompt, \<open>json.loads\<close>, and the clock. A step that can raise
  returns the exception on the left.
\<close>

record world =
  memory_ok :: bool
  read_file :: "string \<Rightarrow> py_exn + string"
  cached :: "string \<Rightarrow> json option"
  process_pdf :: "string \<Rightarrow> py_exn + string \<times> string \<times> string"
  generate :: "string \<Rightarrow> py_exn + string"
  json_loads :: "string \<Rightarrow> py_exn + json"
  clock :: string

record processing_request =
  request_id :: string
  file_path :: string
  priority :: int

text \<open>
  What the worker leaves behind: the envelope it returns, the status values it writes
  for the request in order, and the entry it writes to the result cache, if any.
\<close>

record outcome =
  envelope :: json
  statuses :: "string list"
  cache_write :: "(string \<times> json) option"

text \<open>The key of a result in the cache, from the bytes of the file.\<close>

definition result_key :: "string \<Rightarrow> string" where
  "result_key file_content = ''ocr:result:'' @ md5_hexdigest (file_bytes file_content)"

text \<open>
  The cleaning of the model's answer: \<open>s.split('\n', 1)[1]\<close> is the text after the first
  newline and fails without one; \<open>s.rsplit(sep, 1)[0]\<close> is the text before the last \<open>sep\<close>,
  or all of \<open>s\<close>.
\<close>

definition after_first_newline :: "string \<Rightarrow> py_exn + string" where
  "after_first_newline s =
     (if CHR 0x0A \<in> set s then Inr (drop 1 (dropWhile (\<lambda>c. c \<noteq> CHR 0x0A) s))
      else Inl (IndexError ''list index out of range''))"

fun before_last_opt :: "string \<Rightarrow> string \<Rightarrow> string option" where
  "before_last_opt sep [] = None"
| "before_last_opt sep (c # cs) =
     (case before_last_opt sep cs of
        Some pre \<Rightarrow> Some (c # pre)
      | None \<Rightarrow> if starts_with (c # cs) sep then Some [] else None)"

definition before_last :: "string \<Rightarrow> string \<Rightarrow> string" where
  "before_last sep s = (case before_last_opt sep s of None \<Rightarrow> s | Some pre \<Rightarrow> pre)"

definition clean_response :: "string \<Rightarrow> py_exn + string" where
  "clean_response response_text =
     (let clean = strip response_text
      in if starts_with clean ''```'' then
           (case after_first_newline clean of
              Inl e \<Rightarrow> Inl e
            | Inr rest \<Rightarrow> Inr (before_last (CHR 0x0A # ''```'') rest))
         else Inr clean)"

definition build_prompt :: "string \<Rightarrow> string" where
  "build_prompt optimized_text =
     ''[Enhanced prompt from original code...]'' @ [CHR 0x0A] @
     ''        Document Text:'' @ [CHR 0x0A] @
     ''        '' @ optimized_text @ [CHR 0x0A] @ ''        ''"

text \<open>The two ways the worker ends a request as failed.\<close>

definition processing_failed :: "processing_request \<Rightarrow> py_exn \<Rightarrow> outcome" where
  "processing_failed request e =
     \<lparr>envelope =
        JObj [(''success'', JBool False),
              (''error'', JStr (''Processing error: '' @ message e)),
              (''request_id'', JStr (request_id request))],
      statuses = [''processing'', ''failed''],
      cache_write = None\<rparr>"

definition decode_failed :: "processing_request \<Rightarrow> py_exn \<Rightarrow> outcome" where
  "decode_failed request e =
     \<lparr>envelope =
        JObj [(''success'', JBool False),
              (''error'', JStr (''JSON decode error: '' @ message e)),
              (''request_id'', JStr (request_id request)),
              (''needs_human_review'', JBool True)],
      statuses = [''processing'', ''failed''],
      cache_write = None\<rparr>"

text \<open>
  The inner \<open>try\<close> of the worker, from the model's answer on. Only a \<open>JSONDecodeError\<close> is
  handled there; every other exception reaches the outer handler.
\<close>

definition validate_response ::
  "world \<Rightarrow> processing_request \<Rightarrow> string \<Rightarrow> string \<times> string \<times> string \<Rightarrow> string \<Rightarrow> outcome" where
  "validate_response w request file_hash texts response_text =
     (case texts of (pdf_text, fitz_text, plumber_text) \<Rightarrow>
     (case clean_response response_text of
        Inl e \<Rightarrow> processing_failed request e
      | Inr clean \<Rightarrow>
     (case json_loads w clean of
        Inl e \<Rightarrow> if is_JSONDecodeError e then decode_failed request e else processing_failed request e
      | Inr structured_data \<Rightarrow>
     (case validate_extraction structured_data pdf_text fitz_text plumber_text (clock w) of
        Inl e \<Rightarrow> processing_failed request e
      | Inr validated_data \<Rightarrow>
     (case metadata_confidence validated_data of
        Inl e \<Rightarrow> processing_failed request e
      | Inr confidence_score \<Rightarrow>
     (case less_than confidence_score 0.7 of
        Inl e \<Rightarrow> processing_failed request e
      | Inr needs_review \<Rightarrow>
          (let result =
                 JObj [(''success'', JBool True),
                       (''data'', validated_data),
                       (''file_path'', JStr (file_path request)),
                       (''request_id'', JStr (request_id request)),
                       (''processing_info'',
                          JObj [(''text_length'', JInt (int (length pdf_text))),
                                (''extraction_method'', JStr ''enhanced_hybrid_async''),
                                (''confidence_score'', confidence_score),
                                (''needs_human_review'', JBool needs_review)])]
           in \<lparr>envelope = result,
               statuses = [''processing'', ''completed''],
               cache_write = Some (''ocr:result:'' @ file_hash, result)\<rparr>)))))))"

text \<open>\<open>process_single_request\<close>.\<close>

definition process_single_request :: "world \<Rightarrow> processing_request \<Rightarrow> outcome" where
  "process_single_request w request =
     (if \<not> memory_ok w then
        processing_failed request
          (HTTPException ''503: System memory limit reached. Please try again later.'')
      else
        (case read_file w (file_path request) of
           Inl e \<Rightarrow> processing_failed request e
         | Inr file_content \<Rightarrow>
             (let file_hash = md5_hexdigest (file_bytes file_content);
                  cached_result = cached w (''ocr:result:'' @ file_hash)
              in if (case cached_result of None \<Rightarrow> False | Some r \<Rightarrow> truthy r) then
                   \<lparr>envelope =
                      JObj [(''success'', JBool True),
                            (''data'', the cached_result),
                            (''source'', JStr ''cache''),
                            (''request_id'', JStr (request_id request))],
                    statuses = [''processing'', ''completed''],
                    cache_write = None\<rparr>
                 else
                   (case process_pdf w (file_path request) of
                      Inl e \<Rightarrow> processing_failed request e
                    | Inr texts \<Rightarrow>
                        (let optimized_text = intelligent_chunking (fst texts) 6000;
                             prompt = build_prompt optimized_text
                         in case generate w prompt of
                              Inl e \<Rightarrow> processing_failed request e
                            | Inr response_text \<Rightarrow>
                                validate_response w request file_hash texts response_text)))))"

subsection \<open>The cache of the synchronous endpoint\<close>

text \<open>
  \<open>process_certificate\<close> of the synchronous endpoint, with the cache connected: the key,
  the lookup, the processing on a miss, and the storing of a successful result. \<open>process\<close>
  stands for \<open>process_insurance_certificate\<close> on a path, whose envelopes all carry the
  field \<open>success\<close>; the store holds the results by key. The answer says whether the
  result came from the cache.
\<close>

definition cache_key :: "string \<Rightarrow> string" where
  "cache_key path = ''cache:'' @ md5_hexdigest (encode path)"

definition succeeded :: "json \<Rightarrow> bool" where
  "succeeded result = (case subscript result ''success'' of Inl e \<Rightarrow> False | Inr v \<Rightarrow> truthy v)"

definition process_certificate ::
  "(string \<Rightarrow> json) \<Rightarrow> (string \<rightharpoonup> json) \<Rightarrow> string \<Rightarrow> (json \<times> bool) \<times> (string \<rightharpoonup> json)" where
  "process_certificate process store path =
     (let key = cache_key path
      in case store key of
           Some result \<Rightarrow>
             if succeeded result then ((result, True), store)
             else
               (let result = process path
                in ((result, False), if succeeded result then store(key \<mapsto> result) else store))
         | None \<Rightarrow>
             (let result = process path
              in ((result, False), if succeeded result then store(key \<mapsto> result) else store)))"

subsection \<open>Reading an envelope\<close>

text \<open>\<open>result["processing_info"][field]\<close> of an envelope.\<close>

definition processing_info :: "json \<Rightarrow> string \<Rightarrow> py_exn + json" where
  "processing_info result field =
     (case subscript result ''processing_info'' of
        Inl e \<Rightarrow> Inl e
      | Inr info \<Rightarrow> subscript info field)"

subsection \<open>A sample world\<close>

text \<open>
  A world in which everything outside the worker succeeds: memory is available, every
  path holds the same file, the cache is empty, the extraction finds one line of text,
  and the model's answer parses to the given candidate.
\<close>

definition sample_world :: "json \<Rightarrow> world" where
  "sample_world candidate =
     \<lparr>memory_ok = True,
      read_file = (\<lambda>path. Inr ''%PDF-1.4''),
      cached = (\<lambda>key. None),
      process_pdf = (\<lambda>path. Inr (''Certificate AB-123456 issued'', ''Certificate AB-123456 issued'', [])),
      generate = (\<lambda>prompt. Inr ''{}''),
      json_loads = (\<lambda>text. Inr candidate),
      clock = ''2025-01-01T00:00:00''\<rparr>"

text \<open>The envelope of a successful run of \<open>process_insurance_certificate\<close> with given data.\<close>

definition success_envelope :: "json \<Rightarrow> string \<Rightarrow> json" where
  "success_envelope data path =
     JObj [(''success'', JBool True), (''data'', data), (''file_path'', JStr path)]"

section \<open>Properties of text normalisation\<close>

lemma is_space_blank: "is_space CHR '' ''"
  by (simp add: is_space_def code_def)

lemma is_space_newline: "is_space (CHR 0x0A)"
  by (simp add: is_space_def code_def)

lemma re_sub_plus_id: "\<forall>c\<in>set s. \<not> P c \<Longrightarrow> re_sub_plus P r s = s"
  by (induction s) auto

lemma set_re_sub_plus: "set (re_sub_plus P r s) \<subseteq> set s \<union> set r"
proof (induction P r s rule: re_sub_plus.induct)
  case (1 P r)
  then show ?case by simp
next
  case (2 P r c cs)
  show ?case
  proof (cases "P c")
    case True
    with 2 have "set (re_sub_plus P r (dropWhile P cs)) \<subseteq> set (dropWhile P cs) \<union> set r" by simp
    moreover have "set (dropWhile P cs) \<subseteq> set cs" by (auto dest: set_dropWhileD)
    ultimately show ?thesis using True by auto
  next
    case False
    with 2 show ?thesis by auto
  qed
qed

lemma re_sub_plus_hd:
  "s \<noteq> [] \<Longrightarrow> \<not> P (hd s) \<Longrightarrow> re_sub_plus P r s \<noteq> [] \<and> hd (re_sub_plus P r s) = hd s"
  by (cases s) auto

lemma dropWhile_hd: "dropWhile P s = [] \<or> \<not> P (hd (dropWhile P s))"
  by (metis hd_dropWhile)

lemma single_spaced_sub: "single_spaced (re_sub_plus is_space '' '' s)"
proof (induction "is_space" "'' ''" s rule: re_sub_plus.induct)
  case 1
  then show ?case by simp
next
  case (2 c cs)
  show ?case
  proof (cases "is_space c")
    case True
    let ?d = "dropWhile is_space cs"
    have ih: "single_spaced (re_sub_plus is_space '' '' ?d)" using 2 True by simp
    have "re_sub_plus is_space '' '' ?d = [] \<or> \<not> is_space (hd (re_sub_plus is_space '' '' ?d))"
    proof (cases "?d = []")
      case True
      then have "re_sub_plus is_space '' '' ?d = []" by (simp only: re_sub_plus.simps)
      then show ?thesis by (rule disjI1)
    next
      case False
      then have "\<not> is_space (hd ?d)" by (rule hd_dropWhile)
      with False show ?thesis using re_sub_plus_hd [of ?d is_space "'' ''"] by simp
    qed
    with ih True show ?thesis by (simp add: is_space_blank del: dropWhile_eq_Nil_conv)
  next
    case False
    with 2 show ?thesis by simp
  qed
qed

lemma single_spaced_fix: "single_spaced s \<Longrightarrow> re_sub_plus is_space '' '' s = s"
proof (induction s)
  case Nil
  then show ?case by simp
next
  case (Cons c cs)
  show ?case
  proof (cases "is_space c")
    case True
    with Cons.prems have c: "c = CHR '' ''" and h: "cs = [] \<or> \<not> is_space (hd cs)" and s: "single_spaced cs"
      by simp_all
    from h have "dropWhile is_space cs = cs" by (cases cs) auto
    with True c s Cons.IH show ?thesis by simp
  next
    case False
    with Cons show ?thesis by simp
  qed
qed

lemma single_spaced_spaces: "single_spaced s \<Longrightarrow> c \<in> set s \<Longrightarrow> is_space c \<Longrightarrow> c = CHR '' ''"
  by (induction s) (auto split: if_splits)

lemma last_dropWhile: "dropWhile P xs \<noteq> [] \<Longrightarrow> last (dropWhile P xs) = last xs"
  by (induction xs) (auto split: if_splits)

lemma trimmed_strip: "trimmed (strip s)"
proof -
  let ?a = "dropWhile is_space s"
  let ?b = "dropWhile is_space (rev ?a)"
  show ?thesis
  proof (cases "?b = []")
    case True
    then show ?thesis by (simp add: trimmed_def strip_def del: dropWhile_eq_Nil_conv)
  next
    case False
    then have l: "\<not> is_space (hd ?b)" by (rule hd_dropWhile)
    from False have r: "rev ?a \<noteq> []" by (metis dropWhile.simps(1))
    then have a: "?a \<noteq> []" by (metis rev_is_Nil_conv)
    then have ha: "\<not> is_space (hd ?a)" by (rule hd_dropWhile)
    have "last ?b = last (rev ?a)" using False by (rule last_dropWhile)
    also have "\<dots> = hd ?a" by (rule last_rev)
    finally have lb: "last ?b = hd ?a" .
    have 1: "hd (rev ?b) = last ?b" by (rule hd_rev)
    have 2: "last (rev ?b) = hd ?b" by (rule last_rev)
    have h1: "\<not> is_space (hd (rev ?b))" unfolding 1 lb by (rule ha)
    have h2: "\<not> is_space (last (rev ?b))" unfolding 2 by (rule l)
    show ?thesis unfolding trimmed_def strip_def using h1 h2 by blast
  qed
qed

lemma strip_trimmed: "trimmed s \<Longrightarrow> strip s = s"
proof (cases "s = []")
  case True
  then show ?thesis by (simp add: strip_def)
next
  case False
  assume "trimmed s"
  with False have h: "\<not> is_space (hd s)" and l: "\<not> is_space (last s)" by (simp_all add: trimmed_def)
  from False h have 1: "dropWhile is_space s = s" by (cases s) auto
  from False l have "\<not> is_space (hd (rev s))" by (simp add: hd_rev)
  with False have 2: "dropWhile is_space (rev s) = rev s" by (cases "rev s") auto
  show ?thesis by (simp add: strip_def 1 2)
qed

lemma re_sub_plus_last:
  "s \<noteq> [] \<Longrightarrow> \<not> P (last s) \<Longrightarrow> r \<noteq> [] \<Longrightarrow>
   re_sub_plus P r s \<noteq> [] \<and> last (re_sub_plus P r s) = last s"
proof (induction P r s rule: re_sub_plus.induct)
  case (1 P r)
  then show ?case by simp
next
  case (2 P r c cs)
  show ?case
  proof (cases "P c")
    case True
    with "2.prems" have cs: "cs \<noteq> []" by auto
    with "2.prems" have lcs: "\<not> P (last cs)" by simp
    have d: "dropWhile P cs \<noteq> []"
    proof
      assume "dropWhile P cs = []"
      then have "\<forall>x\<in>set cs. P x" by simp
      with cs lcs show False using last_in_set by blast
    qed
    then have ld: "last (dropWhile P cs) = last cs" by (rule last_dropWhile)
    with "2.IH"(1) [OF True d] lcs "2.prems"(3)
    have "re_sub_plus P r (dropWhile P cs) \<noteq> []"
      and "last (re_sub_plus P r (dropWhile P cs)) = last cs" by simp_all
    with True cs show ?thesis by simp
  next
    case False
    show ?thesis
    proof (cases "cs = []")
      case True
      with False show ?thesis by simp
    next
      case nonempty: False
      with "2.prems" have "\<not> P (last cs)" by simp
      with "2.IH"(2) [OF False nonempty] "2.prems"(3) nonempty False show ?thesis by simp
    qed
  qed
qed

lemma trimmed_sub: "trimmed s \<Longrightarrow> trimmed (re_sub_plus is_space '' '' s)"
proof (cases "s = []")
  case True
  then show ?thesis by (simp add: trimmed_def)
next
  case False
  assume "trimmed s"
  with False have h: "\<not> is_space (hd s)" and l: "\<not> is_space (last s)" by (simp_all add: trimmed_def)
  from re_sub_plus_hd [of s is_space "'' ''"] re_sub_plus_last [of s is_space "'' ''"] False h l
  show ?thesis by (simp add: trimmed_def)
qed


lemma set_strip: "set (strip s) \<subseteq> set s"
proof
  fix c assume "c \<in> set (strip s)"
  then have "c \<in> set (dropWhile is_space (rev (dropWhile is_space s)))" by (simp add: strip_def)
  then have "c \<in> set (rev (dropWhile is_space s))" by (rule set_dropWhileD)
  then have "c \<in> set (dropWhile is_space s)" by simp
  then show "c \<in> set s" by (rule set_dropWhileD)
qed

lemma whitelisted_blank: "whitelisted CHR '' ''"
  by (simp add: whitelisted_def is_space_blank)

lemma normalize_text_whitelisted:
  assumes "\<forall>c\<in>set s. whitelisted c"
  shows "normalize_text s = re_sub_plus is_space '' '' (strip s)"
proof (cases "s = []")
  case True
  then show ?thesis by (simp add: normalize_text_def strip_def)
next
  case False
  let ?t = "re_sub_plus is_space '' '' (strip s)"
  have sp: "single_spaced ?t" by (rule single_spaced_sub)
  have "\<forall>c\<in>set ?t. \<not> c = CHR 0x0A"
  proof
    fix c assume c: "c \<in> set ?t"
    show "\<not> c = CHR 0x0A"
    proof
      assume n: "c = CHR 0x0A"
      then have "is_space c" by (simp add: is_space_newline)
      with sp c have "c = CHR '' ''" by (rule single_spaced_spaces)
      with n show False by simp
    qed
  qed
  then have nl: "re_sub_plus (\<lambda>c. c = CHR 0x0A) '' '' ?t = ?t" by (rule re_sub_plus_id)
  have "set ?t \<subseteq> set (strip s) \<union> set '' ''" by (rule set_re_sub_plus)
  with set_strip [of s] have "set ?t \<subseteq> set s \<union> {CHR '' ''}" by auto
  with assms whitelisted_blank have "\<forall>c\<in>set ?t. whitelisted c" by auto
  then have "filter whitelisted ?t = ?t" by simp
  with False nl show ?thesis by (simp add: normalize_text_def)
qed

lemma normalize_text_fixpoint:
  assumes "\<forall>c\<in>set s. whitelisted c"
  shows "normalize_text (normalize_text s) = normalize_text s"
proof -
  let ?t = "re_sub_plus is_space '' '' (strip s)"
  have t: "normalize_text s = ?t" using assms by (rule normalize_text_whitelisted)
  have "set ?t \<subseteq> set (strip s) \<union> set '' ''" by (rule set_re_sub_plus)
  with set_strip [of s] have "set ?t \<subseteq> set s \<union> {CHR '' ''}" by auto
  with assms whitelisted_blank have w: "\<forall>c\<in>set ?t. whitelisted c" by auto
  have "trimmed ?t" using trimmed_strip by (rule trimmed_sub)
  then have s1: "strip ?t = ?t" by (rule strip_trimmed)
  have s2: "re_sub_plus is_space '' '' ?t = ?t" using single_spaced_sub by (rule single_spaced_fix)
  have "normalize_text ?t = re_sub_plus is_space '' '' (strip ?t)"
    using w by (rule normalize_text_whitelisted)
  with s1 s2 t show ?thesis by simp
qed

lemma normalize_text_output_whitelisted: "\<forall>c\<in>set (normalize_text s). whitelisted c"
  by (simp add: normalize_text_def Let_def)

text \<open>
  Claim C10, as stated, fails: deleting the \<open>!\<close> between two blanks leaves a double blank,
  which a second normalisation collapses.
\<close>

theorem normalize_text_not_idempotent:
  "normalize_text (normalize_text ''a ! b'') \<noteq> normalize_text ''a ! b''"
  by (simp add: normalize_text_def strip_def is_space_def code_def whitelisted_def is_word_def
      is_digit_def is_upper_def is_lower_def)

text \<open>
  Claim C10, amended: normalising twice equals normalising once for every text that has
  no character outside the whitelist, and for every text normalising three times equals
  normalising twice.
\<close>

theorem normalize_text_idempotent_on_whitelisted:
  "((\<forall>c\<in>set s. whitelisted c) \<longrightarrow> normalize_text (normalize_text s) = normalize_text s) \<and>
   normalize_text (normalize_text (normalize_text s)) = normalize_text (normalize_text s)"
proof
  show "(\<forall>c\<in>set s. whitelisted c) \<longrightarrow> normalize_text (normalize_text s) = normalize_text s"
    using normalize_text_fixpoint by blast
  show "normalize_text (normalize_text (normalize_text s)) = normalize_text (normalize_text s)"
    using normalize_text_output_whitelisted by (rule normalize_text_fixpoint)
qed

theorem normalize_text_idempotent_on_whitelisted_witness:
  "list_all whitelisted ''  Policy   No. (A-1) '' \<and>
   normalize_text (normalize_text ''  Policy   No. (A-1) '') = normalize_text ''  Policy   No. (A-1) '' \<and>
   normalize_text ''  Policy   No. (A-1) '' = ''Policy No. (A-1)''"
  using normalize_text_idempotent_on_whitelisted [of "''  Policy   No. (A-1) ''"]
  by (simp add: normalize_text_def strip_def is_space_def code_def whitelisted_def is_word_def
      is_digit_def is_upper_def is_lower_def)


section \<open>Properties of the table confidence\<close>

lemma filled_cells_count:
  "sum_list (concat (map (\<lambda>row. [1::nat. cell \<leftarrow> row, cell_filled cell]) table)) =
   length (filter cell_filled (concat table))"
proof (induction table)
  case Nil
  then show ?case by simp
next
  case (Cons row table)
  have "sum_list [1::nat. cell \<leftarrow> row, cell_filled cell] = length (filter cell_filled row)"
    by (induction row) auto
  with Cons show ?case by simp
qed

lemma total_cells_count: "sum_list (map length table) = length (concat table)"
  by (simp add: length_concat)

lemma confidence_formula:
  "calculate_table_confidence table = (if cells table = [] then 0 else table_score table)"
proof (cases "cells table = []")
  case True
  then show ?thesis
    by (simp add: calculate_table_confidence_def total_cells_count cells_def del: concat_eq_Nil_conv)
next
  case False
  then have "table \<noteq> []" by (auto simp: cells_def)
  with False show ?thesis
    by (simp add: calculate_table_confidence_def total_cells_count filled_cells_count cells_def
        table_score_def fill_ratio_def Let_def del: concat_eq_Nil_conv)
qed

lemma survives_cells: "table_survives table \<Longrightarrow> cells table \<noteq> []"
proof -
  assume "table_survives table"
  then obtain row cell where "row \<in> set table" and "cell \<in> set row"
    by (auto simp: table_survives_def list_ex_iff)
  then have "cell \<in> set (concat table)" by auto
  then show ?thesis by (auto simp: cells_def simp del: concat_eq_Nil_conv set_concat)
qed

text \<open>
  Claim C2, as stated, fails: a table whose cells are all empty still scores
  \<open>0.3 * min(1, rows / 5)\<close>; with two rows that is \<open>0.12\<close>.
\<close>

theorem table_confidence_all_empty_nonzero:
  "list_all (\<lambda>row. list_all (\<lambda>cell. \<not> cell_filled cell) row) [[Some '' ''], [None]] \<and>
   calculate_table_confidence [[Some '' ''], [None]] = 3 / 25 \<and>
   calculate_table_confidence [[Some '' ''], [None]] \<noteq> 0"
  by (simp add: calculate_table_confidence_def cell_filled_def strip_def is_space_def code_def)

text \<open>
  Claim C2, amended: the confidence is \<open>0\<close> for a table without cells; for every table
  that has a cell, and so for every table that survives the filter, it is
  \<open>0.7 * fill_ratio + 0.3 * min(1, rows / 5)\<close>; for a table that has cells, all of them
  empty or blank, it is \<open>0.3 * min(1, rows / 5)\<close>.
\<close>

theorem table_confidence_score:
  "(cells table = [] \<longrightarrow> calculate_table_confidence table = 0) \<and>
   (cells table \<noteq> [] \<longrightarrow> calculate_table_confidence table = table_score table) \<and>
   (table_survives table \<longrightarrow> calculate_table_confidence table = table_score table) \<and>
   (cells table \<noteq> [] \<and> list_all (\<lambda>cell. \<not> cell_filled cell) (cells table) \<longrightarrow>
      calculate_table_confidence table = 0.3 * min 1 (real (length table) / 5))"
proof (intro conjI impI)
  assume "cells table = []"
  then show "calculate_table_confidence table = 0" by (simp add: confidence_formula)
next
  assume "cells table \<noteq> []"
  then show "calculate_table_confidence table = table_score table" by (simp add: confidence_formula)
next
  assume "table_survives table"
  then have "cells table \<noteq> []" by (rule survives_cells)
  then show "calculate_table_confidence table = table_score table" by (simp add: confidence_formula)
next
  assume a: "cells table \<noteq> [] \<and> list_all (\<lambda>cell. \<not> cell_filled cell) (cells table)"
  then have "filter cell_filled (cells table) = []" by (simp add: list_all_iff)
  then have "fill_ratio table = 0" by (simp add: fill_ratio_def)
  with a show "calculate_table_confidence table = 0.3 * min 1 (real (length table) / 5)"
    by (simp add: confidence_formula table_score_def)
qed

theorem table_confidence_score_witness:
  "cells [] = [] \<and> calculate_table_confidence [] = 0 \<and>
   cells [[], []] = [] \<and> calculate_table_confidence [[], []] = 0 \<and>
   table_survives [[Some ''Limit'', Some ''1000''], [Some ''Each'', None]] \<and>
   cells [[Some ''Limit'', Some ''1000''], [Some ''Each'', None]] \<noteq> [] \<and>
   calculate_table_confidence [[Some ''Limit'', Some ''1000''], [Some ''Each'', None]] =
     table_score [[Some ''Limit'', Some ''1000''], [Some ''Each'', None]] \<and>
   table_score [[Some ''Limit'', Some ''1000''], [Some ''Each'', None]] = 129 / 200 \<and>
   cells [[Some '' ''], [None]] \<noteq> [] \<and>
   list_all (\<lambda>cell. \<not> cell_filled cell) (cells [[Some '' ''], [None]]) \<and>
   calculate_table_confidence [[Some '' ''], [None]] = 0.3 * min 1 (real (length [[Some '' ''], [None :: cell]]) / 5)"
  using table_confidence_score [of "[]"] table_confidence_score [of "[[], []]"]
    table_confidence_score [of "[[Some ''Limit'', Some ''1000''], [Some ''Each'', None]]"]
    table_confidence_score [of "[[Some '' ''], [None]]"]
  by (simp add: cells_def table_survives_def table_score_def fill_ratio_def cell_filled_def
      strip_def is_space_def code_def)


section \<open>Properties of the chunker\<close>

lemmas class_defs = same_letter_def is_space_def is_word_def is_digit_def is_upper_def is_lower_def
  code_def colon_or_space_def word_or_dash_def amount_char_def

lemma finditer_skip:
  assumes "\<And>s. re_match r (c # s) = None"
  shows "finditer r off (replicate n c @ t) = finditer r (off + int n) t"
proof (induction n arbitrary: off)
  case 0
  then show ?case by simp
next
  case (Suc n)
  have "finditer r off (replicate (Suc n) c @ t) = finditer r off (c # (replicate n c @ t))"
    by simp
  also have "\<dots> = finditer r (off + 1) (replicate n c @ t)"
    by (simp only: finditer.simps assms option.case)
  also have "\<dots> = finditer r (off + 1 + int n) t" by (rule Suc.IH)
  also have "off + 1 + int n = off + int (Suc n)" by simp
  finally show ?case .
qed

lemma unfold_patterns:
  "re_match pat_certificate_number s = backtrack [seqs [lit_ci ''certificate'', Plus is_space, lit_ci ''number'', Plus colon_or_space, Plus is_word]] s"
  "re_match pat_policy_number s = backtrack [seqs [lit_ci ''policy'', Plus is_space, lit_ci ''number'', Plus colon_or_space, Plus word_or_dash]] s"
  "re_match pat_effective_date s = backtrack [seqs [lit_ci ''effective'', Plus is_space, lit_ci ''date'', Plus colon_or_space, Plus is_digit]] s"
  "re_match pat_expiration_date s = backtrack [seqs [lit_ci ''expiration'', Plus is_space, lit_ci ''date'', Plus colon_or_space, Plus is_digit]] s"
  "re_match pat_general_aggregate s = backtrack [seqs [lit_ci ''general'', Plus is_space, lit_ci ''aggregate'', Plus colon_or_space, Plus amount_char]] s"
  "re_match pat_each_occurrence s = backtrack [seqs [lit_ci ''each'', Plus is_space, lit_ci ''occurrence'', Plus colon_or_space, Plus amount_char]] s"
  "re_match pat_workers_compensation s = backtrack [seqs [lit_ci ''workers'', Plus is_space, lit_ci ''compensation'']] s"
  "re_match pat_liability_limits s = backtrack [seqs [lit_ci ''liability'', Plus is_space, lit_ci ''limit'', opt (lit_ci ''s'')]] s"
  "re_match pat_certificate_holder s = backtrack [seqs [lit_ci ''certificate'', Plus is_space, lit_ci ''holder'']] s"
  by (simp_all only: re_match_def pat_certificate_number_def pat_policy_number_def
      pat_effective_date_def pat_expiration_date_def pat_general_aggregate_def
      pat_each_occurrence_def pat_workers_compensation_def pat_liability_limits_def
      pat_certificate_holder_def)

lemma patterns_reject_x:
  "\<forall>r\<in>set priority_patterns. \<forall>s. re_match r (CHR ''x'' # s) = None"
  by (simp add: priority_patterns_def unfold_patterns seqs_def lit_ci_def opt_def class_defs)

lemma finditer_filler:
  "r \<in> set priority_patterns \<Longrightarrow>
   finditer r off (replicate n CHR ''x'' @ t) = finditer r (off + int n) t"
  using patterns_reject_x by (intro finditer_skip) blast

lemma two_holders_sections:
  "priority_sections two_holders_text =
     [(0, 218, ''certificate holder''), (318, 436, ''certificate holder'')]"
  by (simp add: priority_sections_def priority_patterns_def pattern_sections_def two_holders_text_def
      finditer_filler unfold_patterns seqs_def lit_ci_def opt_def class_defs slice_def clamp_index_def)

lemma intelligent_chunking_fits:
  "int (length text) \<le> max_chars \<Longrightarrow> intelligent_chunking text max_chars = text"
  by (simp add: intelligent_chunking_def)

lemma length_slice_prefix: "0 \<le> n \<Longrightarrow> int (length (slice s 0 n)) \<le> n"
  by (simp add: slice_def clamp_index_def)

lemma chunk_parts_within_budget:
  "total_length \<le> max_chars \<Longrightarrow>
   total_length + int (sum_list (map length (chunk_parts text max_chars total_length sections))) \<le> max_chars"
proof (induction sections arbitrary: total_length)
  case Nil
  then show ?case by simp
next
  case (Cons sec sections)
  obtain start stop where s: "sec = (start, stop)" by (cases sec)
  let ?cut = "slice text start stop"
  show ?case
  proof (cases "total_length + int (length ?cut) \<le> max_chars")
    case True
    from Cons.IH [OF True] True s show ?thesis by (simp add: Let_def add.assoc)
  next
    case False
    show ?thesis
    proof (cases "max_chars - total_length > 100")
      case True
      then have "int (length (slice ?cut 0 (max_chars - total_length))) \<le> max_chars - total_length"
        by (intro length_slice_prefix) simp
      with False True s show ?thesis by (simp add: Let_def)
    next
      case small: False
      with False s Cons.prems show ?thesis by (simp add: Let_def)
    qed
  qed
qed

text \<open>
  Claim C1 at a failing input: with a budget of 336 characters the chunker joins two
  windows of 218 and 118 characters, which use up the budget, with the separator
  \<open>" ... "\<close>, and returns 341 characters. The loop counts the windows against the
  budget (\<open>chunk_parts_within_budget\<close>) and leaves the separators out.
\<close>

theorem intelligent_chunking_exceeds_budget:
  "length two_holders_text = 436 \<and>
   intelligent_chunking two_holders_text 336 =
     ''certificate holder'' @ replicate 200 CHR ''x'' @ '' ... '' @
     replicate 100 CHR ''x'' @ ''certificate holder'' \<and>
   length (intelligent_chunking two_holders_text 336) = 341"
  by (simp add: intelligent_chunking_def two_holders_sections)
     (simp add: two_holders_text_def slice_def clamp_index_def)


section \<open>Properties of the rate limiter\<close>

lemma acquire_all_Cons_fst:
  "fst (acquire_all limit call_times (now # nows)) =
   fst (acquire limit now call_times) # fst (acquire_all limit (snd (acquire limit now call_times)) nows)"
  by (simp split: prod.splits)

lemma acquire_all_Cons_snd:
  "snd (acquire_all limit call_times (now # nows)) =
   snd (acquire_all limit (snd (acquire limit now call_times)) nows)"
  by (simp split: prod.splits)

lemma acquire_all_window:
  assumes "sorted nows" and "\<forall>now\<in>set nows. lo \<le> now"
    and "\<forall>now. lo \<le> now \<longrightarrow> [t \<leftarrow> call_times. now - t < minute] = [t \<leftarrow> grants. now - t < minute]"
  shows "fst (acquire_all limit call_times nows) = window_grants limit grants nows"
  using assms
proof (induction nows arbitrary: call_times grants lo)
  case Nil
  then show ?case by simp
next
  case (Cons now nows)
  let ?kept = "[t \<leftarrow> call_times. now - t < minute]"
  let ?g = "int (length ?kept) < limit"
  let ?ct = "if ?g then ?kept @ [now] else ?kept"
  let ?gr = "if ?g then grants @ [now] else grants"
  have lo: "lo \<le> now" using Cons.prems(2) by simp
  then have same: "?kept = [t \<leftarrow> grants. now - t < minute]" using Cons.prems(3) by blast
  have keep: "[t \<leftarrow> ?kept. now' - t < minute] = [t \<leftarrow> grants. now' - t < minute]"
    if "now \<le> now'" for now'
  proof -
    have "[t \<leftarrow> ?kept. now' - t < minute] = [t \<leftarrow> call_times. now' - t < minute \<and> now - t < minute]"
      by (simp add: conj_commute)
    also have "\<dots> = [t \<leftarrow> call_times. now' - t < minute]"
      using that by (intro filter_cong) auto
    also have "\<dots> = [t \<leftarrow> grants. now' - t < minute]"
      using Cons.prems(3) lo that by simp
    finally show ?thesis .
  qed
  have rel: "\<forall>now'. now \<le> now' \<longrightarrow> [t \<leftarrow> ?ct. now' - t < minute] = [t \<leftarrow> ?gr. now' - t < minute]"
    using keep by simp
  have s: "sorted nows" and b: "\<forall>x\<in>set nows. now \<le> x" using Cons.prems(1) by simp_all
  have ih: "fst (acquire_all limit ?ct nows) = window_grants limit ?gr nows"
    using Cons.IH [OF s b rel] .
  have acq: "acquire limit now call_times = (?g, ?ct)" by (simp add: acquire_def Let_def)
  show ?case using ih same by (simp only: acquire_all_Cons_fst acq fst_conv snd_conv window_grants.simps Let_def)
qed

lemma acquire_length:
  "0 \<le> limit \<Longrightarrow> int (length call_times) \<le> limit \<Longrightarrow>
   int (length (snd (acquire limit now call_times))) \<le> limit"
proof -
  assume l: "0 \<le> limit" and c: "int (length call_times) \<le> limit"
  have "length [t \<leftarrow> call_times. now - t < minute] \<le> length call_times" by (rule length_filter_le)
  with c have k: "int (length [t \<leftarrow> call_times. now - t < minute]) \<le> limit" by linarith
  show ?thesis
  proof (cases "int (length [t \<leftarrow> call_times. now - t < minute]) < limit")
    case True
    then show ?thesis by (simp add: acquire_def Let_def)
  next
    case False
    with k show ?thesis by (simp add: acquire_def Let_def)
  qed
qed

lemma acquire_all_length:
  "0 \<le> limit \<Longrightarrow> int (length call_times) \<le> limit \<Longrightarrow>
   int (length (snd (acquire_all limit call_times nows))) \<le> limit"
proof (induction nows arbitrary: call_times)
  case Nil
  then show ?case by simp
next
  case (Cons now nows)
  obtain g ct where a: "acquire limit now call_times = (g, ct)" by (cases "acquire limit now call_times")
  with acquire_length [OF Cons.prems, of now] have "int (length ct) \<le> limit" by simp
  with Cons.IH [OF Cons.prems(1), of ct] a show ?case by (simp only: acquire_all_Cons_snd snd_conv)
qed

lemma acquire_after_ageing:
  assumes "int (length call_times) \<le> limit" and "t \<in> set call_times" and "minute \<le> now - t"
  shows "acquire limit now call_times = (True, [t \<leftarrow> call_times. now - t < minute] @ [now])"
proof -
  have "length [t \<leftarrow> call_times. now - t < minute] < length call_times"
    using assms(2,3) by (intro length_filter_less [of t]) auto
  with assms(1) show ?thesis by (simp add: acquire_def Let_def)
qed

text \<open>
  Claim C5, as stated, fails for a clock that steps back: with a ceiling of 2 and the
  readings 0 s, 100 s and 30 s, the second call prunes the first grant, so the third
  call finds one entry and is granted, although for both earlier grants \<open>now - t\<close> is
  below 60 seconds at the third call.
\<close>

theorem rate_limiter_clock_steps_back:
  "fst (acquire_all 2 [] [0, 100000000, 30000000]) = [True, True, True] \<and>
   snd (acquire_all 2 [] [0, 100000000]) = [100000000] \<and>
   window_grants 2 [] [0, 100000000, 30000000] = [True, True, False] \<and>
   \<not> sorted [0, 100000000, 30000000 :: int]"
  by (simp add: acquire_def minute_def)

text \<open>
  Claim C5, amended: for calls whose clock readings do not decrease, starting from an
  empty limiter, each call is granted exactly when fewer than \<open>limit\<close> of the grants
  recorded before it lie within the trailing sixty seconds; and in every state the
  limiter can reach, once the oldest recorded grant is sixty seconds old the next call
  is granted and its reading recorded.
\<close>

theorem rate_limiter_sliding_window:
  "(sorted nows \<longrightarrow> fst (acquire_all limit [] nows) = window_grants limit [] nows) \<and>
   (0 < limit \<and> snd (acquire_all limit [] nows) \<noteq> [] \<and>
    minute \<le> now - Min (set (snd (acquire_all limit [] nows))) \<longrightarrow>
      fst (acquire limit now (snd (acquire_all limit [] nows))) \<and>
      last (snd (acquire limit now (snd (acquire_all limit [] nows)))) = now)"
proof (intro conjI impI)
  assume s: "sorted nows"
  show "fst (acquire_all limit [] nows) = window_grants limit [] nows"
  proof (cases nows)
    case Nil
    then show ?thesis by simp
  next
    case (Cons n ns)
    with s have "\<forall>x\<in>set nows. n \<le> x" by auto
    with s show ?thesis by (intro acquire_all_window [where lo = n]) auto
  qed
next
  let ?ct = "snd (acquire_all limit [] nows)"
  assume a: "0 < limit \<and> ?ct \<noteq> [] \<and> minute \<le> now - Min (set ?ct)"
  then have len: "int (length ?ct) \<le> limit" by (intro acquire_all_length) auto
  from a have "Min (set ?ct) \<in> set ?ct" by (intro Min_in) auto
  from acquire_after_ageing [OF len this] a
  have r: "acquire limit now ?ct = (True, [t \<leftarrow> ?ct. now - t < minute] @ [now])" by simp
  show "fst (acquire limit now ?ct)" by (simp add: r)
  show "last (snd (acquire limit now ?ct)) = now" by (simp add: r)
qed

theorem rate_limiter_sliding_window_witness:
  "sorted [0, 10000000, 20000000, 59999999, 60000000 :: int] \<and>
   fst (acquire_all 2 [] [0, 10000000, 20000000, 59999999, 60000000]) = [True, True, False, False, True] \<and>
   window_grants 2 [] [0, 10000000, 20000000, 59999999, 60000000] = [True, True, False, False, True] \<and>
   (0 :: int) < 2 \<and>
   snd (acquire_all 2 [] [0, 10000000, 20000000]) = [0, 10000000] \<and>
   fst (acquire 2 59999999 [0, 10000000]) = False \<and>
   minute \<le> 60000000 - Min (set (snd (acquire_all 2 [] [0, 10000000, 20000000]))) \<and>
   fst (acquire 2 60000000 (snd (acquire_all 2 [] [0, 10000000, 20000000]))) \<and>
   snd (acquire 2 60000000 (snd (acquire_all 2 [] [0, 10000000, 20000000]))) = [10000000, 60000000]"
  using rate_limiter_sliding_window [of "[0, 10000000, 20000000, 59999999, 60000000]" 2 0]
    rate_limiter_sliding_window [of "[0, 10000000, 20000000]" 2 60000000]
  by (simp add: acquire_def minute_def)


section \<open>Properties of the validation pipeline\<close>

subsection \<open>Completeness\<close>

lemma descend_append_None: "descend data keys = None \<Longrightarrow> descend data (keys @ further) = None"
  by (induction data keys rule: descend.induct) (auto split: json.splits option.splits)

lemma get_nested_value_unresolved: "\<not> resolves data path \<Longrightarrow> get_nested_value data path = None"
  by (auto simp: resolves_def get_nested_value_def split: option.splits)

lemma validate_extraction_missing:
  "\<not> validate_required_fields data \<Longrightarrow>
   validate_extraction data pdf_text fitz_text plumber_text timestamp =
     Inl (MissingFieldError ''Required fields missing from extraction'')"
  by (simp add: validate_extraction_def)

text \<open>
  Claim C6: path resolution answers "not present" for every path that does not resolve
  to a non-empty trimmed value, in particular once an object on the way is absent, and
  it has no failing case; a candidate in which one of the required paths does not
  resolve to a non-empty trimmed value is rejected with \<open>MissingFieldError\<close>. In the
  witness one candidate lacks the object \<open>policies\<close> and another has \<open>null\<close> for its
  certificate number.
\<close>

theorem missing_required_field_rejected:
  "(\<not> resolves data path \<longrightarrow> get_nested_value data path = None) \<and>
   (descend data keys = None \<longrightarrow> descend data (keys @ further) = None) \<and>
   ((\<exists>path\<in>set required_paths. \<not> resolves data path) \<longrightarrow>
      validate_extraction data pdf_text fitz_text plumber_text timestamp =
        Inl (MissingFieldError ''Required fields missing from extraction''))"
proof (intro conjI impI)
  assume "\<not> resolves data path"
  then show "get_nested_value data path = None" by (rule get_nested_value_unresolved)
next
  assume "descend data keys = None"
  then show "descend data (keys @ further) = None" by (rule descend_append_None)
next
  assume "\<exists>path\<in>set required_paths. \<not> resolves data path"
  then obtain path where p: "path \<in> set required_paths" and "\<not> resolves data path" by blast
  then have "get_nested_value data path = None" by (intro get_nested_value_unresolved)
  with p have "\<not> validate_required_fields data"
    by (auto simp: validate_required_fields_def list_all_iff)
  then show "validate_extraction data pdf_text fitz_text plumber_text timestamp =
      Inl (MissingFieldError ''Required fields missing from extraction'')"
    by (rule validate_extraction_missing)
qed

theorem missing_required_field_rejected_witness:
  "resolves (JObj [(''certificate_number'', JStr ''AB-123456''),
            (''certificate_information'',
               JObj [(''certificate_type'', JStr ''COI''), (''issued_date'', JStr ''   '')])])
       ''certificate_number'' \<and>
   \<not> resolves (JObj [(''certificate_number'', JStr ''AB-123456''),
            (''certificate_information'',
               JObj [(''certificate_type'', JStr ''COI''), (''issued_date'', JStr ''   '')])])
       ''policies.commercial_general_liability.policy_number'' \<and>
   get_nested_value (JObj [(''certificate_number'', JStr ''AB-123456''),
            (''certificate_information'',
               JObj [(''certificate_type'', JStr ''COI''), (''issued_date'', JStr ''   '')])])
       ''policies.commercial_general_liability.policy_number'' = None \<and>
   descend (JObj [(''certificate_number'', JStr ''AB-123456''),
            (''certificate_information'',
               JObj [(''certificate_type'', JStr ''COI''), (''issued_date'', JStr ''   '')])])
       [''policies''] = None \<and>
   descend (JObj [(''certificate_number'', JStr ''AB-123456''),
            (''certificate_information'',
               JObj [(''certificate_type'', JStr ''COI''), (''issued_date'', JStr ''   '')])])
       ([''policies''] @ [''commercial_general_liability'', ''policy_number'']) = None \<and>
   ''policies.commercial_general_liability.policy_number'' \<in> set required_paths \<and>
   validate_extraction (JObj [(''certificate_number'', JStr ''AB-123456''),
            (''certificate_information'',
               JObj [(''certificate_type'', JStr ''COI''), (''issued_date'', JStr ''   '')])])
       ''AB-123456'' ''AB-123456'' [] ''2025-01-01T00:00:00'' =
     Inl (MissingFieldError ''Required fields missing from extraction'') \<and>
   descend (JObj [(''certificate_number'', JNull)]) [''certificate_number''] = Some JNull \<and>
   \<not> resolves (JObj [(''certificate_number'', JNull)]) ''certificate_number'' \<and>
   get_nested_value (JObj [(''certificate_number'', JNull)]) ''certificate_number'' = None \<and>
   \<not> resolves (JObj [(''certificate_number'', JInt 0)]) ''certificate_number'' \<and>
   \<not> resolves (JObj [(''certificate_number'', JStr ''  '')]) ''certificate_number'' \<and>
   ''certificate_number'' \<in> set required_paths \<and>
   validate_extraction (JObj [(''certificate_number'', JNull)]) [] [] [] ''2025-01-01T00:00:00'' =
     Inl (MissingFieldError ''Required fields missing from extraction'')"
  using missing_required_field_rejected
    [of "JObj [(''certificate_number'', JNull)]" "''certificate_number''" "[''policies'']"
        "[''commercial_general_liability'']" "[]" "[]" "[]" "''2025-01-01T00:00:00''"]
    missing_required_field_rejected
    [of "JObj [(''certificate_number'', JStr ''AB-123456''),
            (''certificate_information'',
               JObj [(''certificate_type'', JStr ''COI''), (''issued_date'', JStr ''   '')])]"
        "''policies.commercial_general_liability.policy_number''" "[''policies'']"
        "[''commercial_general_liability'', ''policy_number'']"
        "''AB-123456''" "''AB-123456''" "[]" "''2025-01-01T00:00:00''"]
  by (simp add: resolves_def required_paths_def strip_def is_space_def code_def)


subsection \<open>Temporal\<close>

lemma parse_dates_bad:
  "list_ex (\<lambda>f. field_bad (snd f)) fs \<Longrightarrow> parse_dates fs dates \<noteq> Inr (Some ds)"
proof (induction fs arbitrary: dates)
  case Nil
  then show ?case by simp
next
  case (Cons f fs)
  obtain name v where f: "f = (name, v)" by (cases f)
  show ?case
  proof (cases v)
    case None
    with Cons f show ?thesis by (simp add: field_bad_def)
  next
    case (Some date_str)
    show ?thesis
    proof (cases "strptime_value date_str")
      case (Inl e)
      with f Some show ?thesis by simp
    next
      case (Inr d)
      with Cons.prems f Some have "list_ex (\<lambda>f. field_bad (snd f)) fs"
        by (simp add: field_bad_def field_date_def)
      then have "parse_dates fs (dates(name \<mapsto> d)) \<noteq> Inr (Some ds)" by (rule Cons.IH)
      with f Some Inr show ?thesis by simp
    qed
  qed
qed

lemma parse_dates_good:
  "\<not> list_ex (\<lambda>f. field_bad (snd f)) fs \<Longrightarrow> parse_dates fs dates = Inr (Some (fold record_date fs dates))"
proof (induction fs arbitrary: dates)
  case Nil
  then show ?case by simp
next
  case (Cons f fs)
  obtain name v where f: "f = (name, v)" by (cases f)
  from Cons.prems have rest: "\<not> list_ex (\<lambda>f. field_bad (snd f)) fs" by simp
  show ?case
  proof (cases v)
    case None
    then have "record_date (name, v) dates = dates" by (simp add: record_date_def field_date_def)
    with Cons.IH [OF rest, of dates] f None show ?thesis by simp
  next
    case (Some date_str)
    show ?thesis
    proof (cases "strptime_value date_str")
      case (Inl e)
      with Cons.prems f Some show ?thesis by (simp add: field_bad_def field_date_def)
    next
      case (Inr d)
      with Some have "record_date (name, v) dates = dates(name \<mapsto> d)"
        by (simp add: record_date_def field_date_def)
      moreover have "parse_dates fs (dates(name \<mapsto> d)) = Inr (Some (fold record_date fs (dates(name \<mapsto> d))))"
        using rest by (rule Cons.IH)
      ultimately show ?thesis using f Some Inr by simp
    qed
  qed
qed

lemma validate_date_sequence_bad:
  "list_ex (\<lambda>f. field_bad (snd f)) (date_fields data) \<Longrightarrow> \<not> validate_date_sequence data"
proof -
  assume a: "list_ex (\<lambda>f. field_bad (snd f)) (date_fields data)"
  show ?thesis
  proof (cases "parse_dates (date_fields data) Map.empty")
    case (Inl e)
    then show ?thesis by (simp add: validate_date_sequence_def)
  next
    case (Inr r)
    with parse_dates_bad [OF a, of Map.empty] have "r = None" by (cases r) auto
    with Inr show ?thesis by (simp add: validate_date_sequence_def)
  qed
qed

lemma bad_iff_unparsable:
  "list_ex (\<lambda>f. field_bad (snd f)) (date_fields data) \<longleftrightarrow> (\<exists>p\<in>set date_paths. unparsable data p)"
  by (simp add: date_fields_def date_paths_def unparsable_def field_bad_def parsed_date_def)

lemma recorded_dates:
  assumes "\<not> list_ex (\<lambda>f. field_bad (snd f)) (date_fields data)"
  shows "not_before (fold record_date (date_fields data) Map.empty) ''cgl_effective'' ''cgl_expiration'' =
           out_of_order data ''policies.commercial_general_liability.effective_date''
             ''policies.commercial_general_liability.expiration_date''"
    and "not_before (fold record_date (date_fields data) Map.empty) ''wc_effective'' ''wc_expiration'' =
           out_of_order data ''policies.workers_compensation_and_employers_liability.effective_date''
             ''policies.workers_compensation_and_employers_liability.expiration_date''"
  by (auto simp: date_fields_def record_date_def not_before_def out_of_order_def parsed_date_def
      not_less split: option.splits)

lemma validate_date_sequence_iff:
  "\<not> validate_date_sequence data \<longleftrightarrow>
     (\<exists>p\<in>set date_paths. unparsable data p) \<or>
     out_of_order data ''policies.commercial_general_liability.effective_date''
       ''policies.commercial_general_liability.expiration_date'' \<or>
     out_of_order data ''policies.workers_compensation_and_employers_liability.effective_date''
       ''policies.workers_compensation_and_employers_liability.expiration_date''"
  (is "?l \<longleftrightarrow> ?u \<or> ?c \<or> ?w")
proof (cases "list_ex (\<lambda>f. field_bad (snd f)) (date_fields data)")
  case bad: True
  then have ?l by (rule validate_date_sequence_bad)
  moreover from bad have ?u unfolding bad_iff_unparsable .
  ultimately show ?thesis by blast
next
  case good: False
  then have n: "\<not> ?u" unfolding bad_iff_unparsable .
  have "validate_date_sequence data =
      (\<not> not_before (fold record_date (date_fields data) Map.empty) ''cgl_effective'' ''cgl_expiration'' \<and>
       \<not> not_before (fold record_date (date_fields data) Map.empty) ''wc_effective'' ''wc_expiration'')"
    by (simp add: validate_date_sequence_def parse_dates_good [OF good])
  then have "validate_date_sequence data = (\<not> ?c \<and> \<not> ?w)"
    unfolding recorded_dates [OF good] .
  with n show ?thesis by blast
qed

lemma later_stages_not_temporal:
  assumes "validate_required_fields data" and "consensus_check data fitz_text plumber_text"
    and "validate_date_sequence data"
  shows "validate_extraction data pdf_text fitz_text plumber_text timestamp \<noteq> Inl (TemporalError m)"
  using assms
  by (auto simp: validate_extraction_def get_def validate_certificate_number_format_def
      calculate_extraction_confidence_def confidence_factors_def Let_def
      split: sum.splits json.splits if_splits)

text \<open>
  Claim C7, amended: for a candidate that passes the completeness and consensus stages,
  \<open>validate_extraction\<close> raises \<open>TemporalError\<close> exactly when some present date field is
  refused by \<open>strptime\<close> under the format \<open>%Y-%m-%d\<close>, or one of the two policy blocks has
  both dates parsed and the effective date not strictly earlier than the expiration
  date. The witness is the candidate with workers-compensation dates \<open>2024-01-01\<close> and
  \<open>2023-01-01\<close>.
\<close>

theorem temporal_failure_iff:
  "validate_required_fields data \<and> consensus_check data fitz_text plumber_text \<longrightarrow>
     ((\<exists>m. validate_extraction data pdf_text fitz_text plumber_text timestamp = Inl (TemporalError m)) \<longleftrightarrow>
        (\<exists>p\<in>set date_paths. unparsable data p) \<or>
        out_of_order data ''policies.commercial_general_liability.effective_date''
          ''policies.commercial_general_liability.expiration_date'' \<or>
        out_of_order data ''policies.workers_compensation_and_employers_liability.effective_date''
          ''policies.workers_compensation_and_employers_liability.expiration_date'') \<and>
     (\<not> validate_date_sequence data \<longrightarrow>
        validate_extraction data pdf_text fitz_text plumber_text timestamp =
          Inl (TemporalError ''Date sequence validation failed''))"
proof (intro impI conjI)
  assume a: "validate_required_fields data \<and> consensus_check data fitz_text plumber_text"
  show "\<not> validate_date_sequence data \<Longrightarrow>
      validate_extraction data pdf_text fitz_text plumber_text timestamp =
        Inl (TemporalError ''Date sequence validation failed'')"
    using a by (simp add: validate_extraction_def)
  have "(\<exists>m. validate_extraction data pdf_text fitz_text plumber_text timestamp = Inl (TemporalError m)) \<longleftrightarrow>
      \<not> validate_date_sequence data"
  proof (cases "validate_date_sequence data")
    case True
    with a later_stages_not_temporal [of data fitz_text plumber_text pdf_text timestamp]
    show ?thesis by blast
  next
    case False
    with a show ?thesis by (simp add: validate_extraction_def)
  qed
  then show "(\<exists>m. validate_extraction data pdf_text fitz_text plumber_text timestamp = Inl (TemporalError m)) \<longleftrightarrow>
        (\<exists>p\<in>set date_paths. unparsable data p) \<or>
        out_of_order data ''policies.commercial_general_liability.effective_date''
          ''policies.commercial_general_liability.expiration_date'' \<or>
        out_of_order data ''policies.workers_compensation_and_employers_liability.effective_date''
          ''policies.workers_compensation_and_employers_liability.expiration_date''"
    by (simp only: validate_date_sequence_iff)
qed

lemmas eval_classes = is_space_def is_digit_def is_upper_def is_lower_def is_word_def code_def
  between_def chr_def seqs_def upper_or_digit_def

lemma reversed_dates_fields:
  "validate_required_fields reversed_dates_candidate"
  "consensus_check reversed_dates_candidate ''Certificate AB-123456 issued'' []"
  by (simp_all add: reversed_dates_candidate_def validate_required_fields_def required_paths_def
      get_nested_value_def consensus_check_def get_def strip_def eval_classes)

lemma reversed_dates_out_of_order:
  "out_of_order reversed_dates_candidate
     ''policies.workers_compensation_and_employers_liability.effective_date''
     ''policies.workers_compensation_and_employers_liability.expiration_date''"
  "parsed_date reversed_dates_candidate
     ''policies.workers_compensation_and_employers_liability.effective_date'' = Some (2024, 1, 1)"
  "parsed_date reversed_dates_candidate
     ''policies.workers_compensation_and_employers_liability.expiration_date'' = Some (2023, 1, 1)"
  by (simp_all add: reversed_dates_candidate_def out_of_order_def parsed_date_def field_date_def
      get_nested_value_def strptime_value_def strptime_def strptime_regex_def re_match_def
      decimal_def days_in_month_def leap_year_def strip_def eval_classes)

theorem temporal_failure_iff_witness:
  "validate_required_fields reversed_dates_candidate \<and>
   consensus_check reversed_dates_candidate ''Certificate AB-123456 issued'' [] \<and>
   parsed_date reversed_dates_candidate
     ''policies.workers_compensation_and_employers_liability.effective_date'' = Some (2024, 1, 1) \<and>
   parsed_date reversed_dates_candidate
     ''policies.workers_compensation_and_employers_liability.expiration_date'' = Some (2023, 1, 1) \<and>
   out_of_order reversed_dates_candidate
     ''policies.workers_compensation_and_employers_liability.effective_date''
     ''policies.workers_compensation_and_employers_liability.expiration_date'' \<and>
   \<not> validate_date_sequence reversed_dates_candidate \<and>
   validate_extraction reversed_dates_candidate ''Certificate AB-123456 issued''
     ''Certificate AB-123456 issued'' [] ''2025-01-01T00:00:00'' =
     Inl (TemporalError ''Date sequence validation failed'')"
proof -
  note t = temporal_failure_iff [of reversed_dates_candidate "''Certificate AB-123456 issued''" "[]"
      "''Certificate AB-123456 issued''" "''2025-01-01T00:00:00''"]
  have v: "\<not> validate_date_sequence reversed_dates_candidate"
    using reversed_dates_out_of_order(1) by (simp add: validate_date_sequence_iff)
  from t reversed_dates_fields v reversed_dates_out_of_order show ?thesis by blast
qed

lemma short_date_fields:
  "validate_required_fields short_date_candidate"
  "consensus_check short_date_candidate ''Certificate AB-123456 issued'' []"
  "get_nested_value short_date_candidate ''certificate_information.issued_date'' = Some (JStr ''2024-1-5'')"
  by (simp_all add: short_date_candidate_def validate_required_fields_def required_paths_def
      get_nested_value_def consensus_check_def get_def strip_def eval_classes)

lemma short_date_parses:
  "strptime ''2024-1-5'' = Inr (2024, 1, 5)"
  by (simp add: strptime_def strptime_regex_def re_match_def
      decimal_def days_in_month_def leap_year_def strip_def eval_classes)

lemma short_date_sequence: "validate_date_sequence short_date_candidate"
  by (simp add: validate_date_sequence_def date_fields_def short_date_candidate_def get_nested_value_def
      strptime_value_def short_date_parses not_before_def strip_def eval_classes)

text \<open>
  Claim C7, as stated, fails: the issue date \<open>2024-1-5\<close> is not in the strict shape
  \<open>YYYY-MM-DD\<close>, yet \<open>strptime\<close> accepts it and no \<open>TemporalError\<close> is raised.
\<close>

theorem short_date_not_temporal:
  "validate_required_fields short_date_candidate \<and>
   consensus_check short_date_candidate ''Certificate AB-123456 issued'' [] \<and>
   get_nested_value short_date_candidate ''certificate_information.issued_date'' = Some (JStr ''2024-1-5'') \<and>
   \<not> strict_ymd ''2024-1-5'' \<and>
   validate_date_sequence short_date_candidate \<and>
   validate_extraction short_date_candidate ''Certificate AB-123456 issued''
     ''Certificate AB-123456 issued'' [] ''2025-01-01T00:00:00'' \<noteq>
     Inl (TemporalError ''Date sequence validation failed'')"
  using short_date_fields short_date_sequence
    later_stages_not_temporal [OF short_date_fields(1) short_date_fields(2) short_date_sequence]
  by (simp add: strict_ymd_def)


subsection \<open>Format\<close>

lemma accepts_simps:
  "accepts [] s"
  "accepts (Eps # rs) s = accepts rs s"
  "accepts (Seq a b # rs) s = accepts (a # b # rs) s"
  "accepts (Eol # rs) s \<longleftrightarrow> (s = [] \<or> s = [CHR 0x0A]) \<and> accepts rs s"
  by (simp_all add: accepts_def)

lemma accepts_Cls:
  "accepts (Cls P # rs) s \<longleftrightarrow> (\<exists>c cs. s = c # cs \<and> P c \<and> accepts rs cs)"
  by (cases s) (auto simp: accepts_def)

lemma accepts_Rep_step:
  "accepts (Rep a lo (Suc hi) # rs) s \<longleftrightarrow>
     accepts (a # Rep a (lo - 1) hi # rs) s \<or> (lo = 0 \<and> accepts rs s)"
  by (auto simp: accepts_def split: option.splits)

lemma accepts_Rep_zero: "accepts (Rep a lo 0 # rs) s \<longleftrightarrow> lo = 0 \<and> accepts rs s"
  by (auto simp: accepts_def)

lemma accepts_Rep_Cls:
  "accepts (Rep (Cls P) lo hi # rs) s \<longleftrightarrow>
     (\<exists>j. lo \<le> j \<and> j \<le> hi \<and> j \<le> length s \<and> list_all P (take j s) \<and> accepts rs (drop j s))"
proof (induction hi arbitrary: lo s)
  case 0
  then show ?case by (auto simp: accepts_Rep_zero)
next
  case (Suc hi)
  let ?K = "Rep (Cls P) (lo - 1) hi # rs"
  have inner: "accepts (Cls P # ?K) s \<longleftrightarrow>
      (\<exists>j. 0 < j \<and> lo \<le> j \<and> j \<le> Suc hi \<and> j \<le> length s \<and> list_all P (take j s) \<and>
           accepts rs (drop j s))" (is "?l \<longleftrightarrow> ?r")
  proof
    assume ?l
    then obtain c cs where s: "s = c # cs" and c: "P c" and k: "accepts ?K cs"
      unfolding accepts_Cls by blast
    from k obtain j where "lo - 1 \<le> j" "j \<le> hi" "j \<le> length cs" "list_all P (take j cs)"
      "accepts rs (drop j cs)" unfolding Suc.IH by blast
    with s c have "0 < Suc j \<and> lo \<le> Suc j \<and> Suc j \<le> Suc hi \<and> Suc j \<le> length s \<and>
        list_all P (take (Suc j) s) \<and> accepts rs (drop (Suc j) s)" by auto
    then show ?r by blast
  next
    assume ?r
    then obtain j where j: "0 < j" "lo \<le> j" "j \<le> Suc hi" "j \<le> length s" "list_all P (take j s)"
      "accepts rs (drop j s)" by blast
    then obtain i where i: "j = Suc i" by (cases j) auto
    with j obtain c cs where s: "s = c # cs" by (cases s) auto
    with i j have "lo - 1 \<le> i \<and> i \<le> hi \<and> i \<le> length cs \<and> list_all P (take i cs) \<and>
        accepts rs (drop i cs)" by auto
    then have "accepts ?K cs" unfolding Suc.IH by blast
    with s i j show ?l unfolding accepts_Cls by auto
  qed
  have zero: "(lo = 0 \<and> accepts rs s) \<longleftrightarrow>
      (\<exists>j. j = 0 \<and> lo \<le> j \<and> j \<le> Suc hi \<and> j \<le> length s \<and> list_all P (take j s) \<and>
           accepts rs (drop j s))" by auto
  have split: "(\<exists>j. lo \<le> j \<and> j \<le> Suc hi \<and> j \<le> length s \<and> list_all P (take j s) \<and>
           accepts rs (drop j s)) \<longleftrightarrow>
      (\<exists>j. 0 < j \<and> lo \<le> j \<and> j \<le> Suc hi \<and> j \<le> length s \<and> list_all P (take j s) \<and>
           accepts rs (drop j s)) \<or>
      (\<exists>j. j = 0 \<and> lo \<le> j \<and> j \<le> Suc hi \<and> j \<le> length s \<and> list_all P (take j s) \<and>
           accepts rs (drop j s))" (is "?all \<longleftrightarrow> ?pos \<or> ?nul")
  proof
    assume ?all
    then obtain j where j: "lo \<le> j \<and> j \<le> Suc hi \<and> j \<le> length s \<and> list_all P (take j s) \<and>
           accepts rs (drop j s)" by blast
    show "?pos \<or> ?nul"
    proof (cases "j = 0")
      case True
      with j have ?nul by blast
      then show ?thesis ..
    next
      case False
      then have "0 < j" by simp
      with j have ?pos by blast
      then show ?thesis ..
    qed
  next
    assume "?pos \<or> ?nul"
    then show ?all by blast
  qed
  show ?case unfolding accepts_Rep_step inner zero split ..
qed

lemma trimmed_drop_newline: "trimmed t \<Longrightarrow> drop n t \<noteq> [CHR 0x0A]"
proof
  assume t: "trimmed t" and d: "drop n t = [CHR 0x0A]"
  then have n: "n < length t" by (cases "n < length t") auto
  then have "last (drop n t) = last t" by simp
  with d have "last t = CHR 0x0A" by simp
  moreover from n have "t \<noteq> []" by auto
  ultimately show False using t is_space_newline by (simp add: trimmed_def)
qed

lemma accepts_end:
  "trimmed t \<Longrightarrow> accepts [Eol, Eps] (drop n t) \<longleftrightarrow> length t \<le> n"
  using trimmed_drop_newline [of t n] by (simp add: accepts_simps)

lemma run_match:
  assumes "trimmed t"
  shows "accepts [seqs [Rep (Cls P) lo hi, Eol]] t \<longleftrightarrow> run P lo hi t"
proof -
  have "accepts [seqs [Rep (Cls P) lo hi, Eol]] t \<longleftrightarrow>
      (\<exists>j. lo \<le> j \<and> j \<le> hi \<and> j \<le> length t \<and> list_all P (take j t) \<and> length t \<le> j)"
    by (simp only: seqs_def foldr.simps o_apply id_apply accepts_simps(3) accepts_Rep_Cls
        accepts_end [OF assms])
  also have "\<dots> \<longleftrightarrow> run P lo hi t"
  proof
    assume "\<exists>j. lo \<le> j \<and> j \<le> hi \<and> j \<le> length t \<and> list_all P (take j t) \<and> length t \<le> j"
    then obtain j where j: "lo \<le> j" "j \<le> hi" "j \<le> length t" "list_all P (take j t)" "length t \<le> j"
      by blast
    then have "j = length t" by simp
    with j show "run P lo hi t" by (simp add: run_def)
  next
    assume "run P lo hi t"
    then have "lo \<le> length t \<and> length t \<le> hi \<and> length t \<le> length t \<and>
        list_all P (take (length t) t) \<and> length t \<le> length t" by (simp add: run_def)
    then show "\<exists>j. lo \<le> j \<and> j \<le> hi \<and> j \<le> length t \<and> list_all P (take j t) \<and> length t \<le> j"
      by blast
  qed
  finally show ?thesis .
qed

lemma dashed_match:
  assumes t: "trimmed t" and nodash: "\<And>c. P c \<Longrightarrow> c \<noteq> CHR ''-''"
  shows "accepts [seqs [Rep (Cls P) lo hi, chr CHR ''-'', Rep (Cls Q) lo' hi', Eol]] t \<longleftrightarrow>
         dashed P lo hi Q lo' hi' t"
proof -
  have tail: "accepts [Seq (chr CHR ''-'') (Seq (Rep (Cls Q) lo' hi') (Seq Eol Eps))] (drop j t) \<longleftrightarrow>
      j < length t \<and> t ! j = CHR ''-'' \<and> run Q lo' hi' (drop (Suc j) t)" (is "?l \<longleftrightarrow> ?r") for j
  proof
    assume ?l
    then obtain c cs where d: "drop j t = c # cs" and c: "c = CHR ''-''"
      and k: "accepts [Rep (Cls Q) lo' hi', Seq Eol Eps] cs"
      unfolding chr_def accepts_simps(3) accepts_Cls by blast
    from d have jl: "j < length t" by (cases "j < length t") auto
    with d have cs: "cs = drop (Suc j) t" and tj: "t ! j = c"
      by (simp_all add: Cons_nth_drop_Suc [symmetric])
    from k obtain i where i: "lo' \<le> i" "i \<le> hi'" "i \<le> length cs" "list_all Q (take i cs)"
      "accepts [Eol, Eps] (drop i cs)" unfolding accepts_Rep_Cls accepts_simps(3) by blast
    have "drop i cs = drop (i + Suc j) t" by (simp add: cs)
    with i(5) have "length t \<le> i + Suc j" using accepts_end [OF t, of "i + Suc j"] by simp
    with i(3) cs have "i = length cs" by simp
    with i have "run Q lo' hi' cs" by (simp add: run_def)
    with jl tj c cs show ?r by simp
  next
    assume r: ?r
    let ?cs = "drop (Suc j) t"
    from r have d: "drop j t = CHR ''-'' # ?cs" by (metis Cons_nth_drop_Suc)
    from r have q: "lo' \<le> length ?cs \<and> length ?cs \<le> hi' \<and> length ?cs \<le> length ?cs \<and>
        list_all Q (take (length ?cs) ?cs)" by (simp add: run_def)
    have "drop (length ?cs) ?cs = drop (length ?cs + Suc j) t" by simp
    moreover have "accepts [Eol, Eps] (drop (length ?cs + Suc j) t)"
      unfolding accepts_end [OF t] by simp
    ultimately have "accepts [Eol, Eps] (drop (length ?cs) ?cs)" by simp
    with q have "accepts [Rep (Cls Q) lo' hi', Seq Eol Eps] ?cs"
      unfolding accepts_Rep_Cls accepts_simps(3) by blast
    then show ?l unfolding d chr_def accepts_simps(3) accepts_Cls by blast
  qed
  have "accepts [seqs [Rep (Cls P) lo hi, chr CHR ''-'', Rep (Cls Q) lo' hi', Eol]] t \<longleftrightarrow>
      (\<exists>j. lo \<le> j \<and> j \<le> hi \<and> j \<le> length t \<and> list_all P (take j t) \<and>
           (j < length t \<and> t ! j = CHR ''-'' \<and> run Q lo' hi' (drop (Suc j) t)))"
    unfolding tail [symmetric]
    by (simp only: seqs_def foldr.simps o_apply id_apply accepts_simps(3) [of "Rep (Cls P) lo hi"]
        accepts_Rep_Cls)
  also have "\<dots> \<longleftrightarrow> dashed P lo hi Q lo' hi' t" (is "?l \<longleftrightarrow> ?r")
  proof
    assume ?l
    then obtain j where j: "lo \<le> j" "j \<le> hi" "list_all P (take j t)" "j < length t"
      "t ! j = CHR ''-''" "run Q lo' hi' (drop (Suc j) t)" by blast
    have "takeWhile (\<lambda>c. c \<noteq> CHR ''-'') t = take j t"
    proof (rule takeWhile_eq_take_P_nth)
      fix i assume "i < j" "i < length t"
      with j(3) have "P (t ! i)" by (simp add: list_all_length)
      then show "t ! i \<noteq> CHR ''-''" by (rule nodash)
    next
      assume "j < length t"
      show "\<not> t ! j \<noteq> CHR ''-''" using j(5) by simp
    qed
    with j show ?r by (simp add: dashed_def run_def Let_def min_def)
  next
    assume r: ?r
    let ?p = "takeWhile (\<lambda>c. c \<noteq> CHR ''-'') t"
    from r have l: "length ?p < length t" and p: "run P lo hi ?p"
      and q: "run Q lo' hi' (drop (Suc (length ?p)) t)" by (simp_all add: dashed_def Let_def)
    have tk: "?p = take (length ?p) t" by (rule takeWhile_eq_take)
    from l have "\<not> t ! length ?p \<noteq> CHR ''-''" by (rule nth_length_takeWhile)
    then have "t ! length ?p = CHR ''-''" by simp
    moreover from p have "lo \<le> length ?p" "length ?p \<le> hi" "list_all P ?p" by (simp_all add: run_def)
    moreover from this(3) tk have "list_all P (take (length ?p) t)" by simp
    ultimately show ?l using l q by (intro exI [of _ "length ?p"]) simp
  qed
  finally show ?thesis .
qed

lemma no_dash: "upper_or_digit c \<Longrightarrow> c \<noteq> CHR ''-''" "is_upper c \<Longrightarrow> c \<noteq> CHR ''-''"
  by (auto simp: upper_or_digit_def is_upper_def is_digit_def code_def)

lemma re_match_accepts: "re_match r t \<noteq> None \<longleftrightarrow> accepts [r] t"
  by (simp only: re_match_def accepts_def)

lemma certificate_patterns_shape:
  "trimmed t \<Longrightarrow>
   list_ex (\<lambda>pattern. re_match pattern t \<noteq> None) certificate_patterns = upper_certificate_shape t"
  unfolding re_match_accepts
  by (simp add: certificate_patterns_def upper_certificate_shape_def run_match dashed_match no_dash)

lemma format_check_shape:
  "s \<noteq> [] \<Longrightarrow> validate_certificate_number_format (JStr s) = Inr (upper_certificate_shape (strip s))"
  using certificate_patterns_shape [OF trimmed_strip, of s]
  by (simp add: validate_certificate_number_format_def del: not_None_eq)

lemma split_plain: "split CHR ''.'' ''certificate_number'' = [''certificate_number'']"
  by simp

lemma required_certificate_number:
  assumes "validate_required_fields data"
  obtains kvs v where "data = JObj kvs" and "map_of kvs ''certificate_number'' = Some v"
    and "truthy v" and "str_strip_nonempty v"
proof -
  from assms have "get_nested_value data ''certificate_number'' \<noteq> None"
    by (simp add: validate_required_fields_def required_paths_def)
  then obtain v where d: "descend data [''certificate_number''] = Some v"
    and t: "truthy v \<and> str_strip_nonempty v"
    unfolding get_nested_value_def split_plain by (auto split: option.splits if_splits)
  from d obtain kvs where "data = JObj kvs" by (cases data) auto
  with d t that show thesis by (auto split: option.splits)
qed

lemma consensus_certificate_number:
  assumes "validate_required_fields data" and "consensus_check data fitz_text plumber_text"
  obtains s where "get data ''certificate_number'' (JStr []) = Inr (JStr s)" and "s \<noteq> []"
    and "strip s \<noteq> []" and "contains fitz_text s \<or> contains plumber_text s"
proof -
  from assms(1) obtain kvs v where d: "data = JObj kvs" "map_of kvs ''certificate_number'' = Some v"
    "truthy v" "str_strip_nonempty v" by (rule required_certificate_number)
  then have g: "get data ''certificate_number'' (JStr []) = Inr v" by (simp add: get_def)
  with assms(2) d(3) obtain s where s: "v = JStr s" and c: "contains fitz_text s \<or> contains plumber_text s"
    by (cases v) (auto simp: consensus_check_def split: if_splits)
  with d g that show thesis by auto
qed

lemma stage_four:
  assumes "validate_required_fields data" and "consensus_check data fitz_text plumber_text"
    and "validate_date_sequence data"
    and "get data ''certificate_number'' (JStr []) = Inr (JStr s)" and "s \<noteq> []"
  shows "validate_extraction data pdf_text fitz_text plumber_text timestamp =
     (if \<not> upper_certificate_shape (strip s)
      then Inl (FormatError (''Invalid certificate number format: '' @ s))
      else
        (case calculate_extraction_confidence data pdf_text of
           Inl e \<Rightarrow> Inl e
         | Inr confidence \<Rightarrow>
             (case data of
                JObj kvs \<Rightarrow>
                  Inr (JObj (dict_set kvs ''_metadata''
                         (JObj [(''confidence_score'', JFloat confidence),
                                (''validation_passed'', JBool True),
                                (''extraction_timestamp'', JStr timestamp)])))
              | _ \<Rightarrow> Inl (AttributeError ''object has no attribute 'copy' ''))))"
  using assms by (simp add: validate_extraction_def format_check_shape)

lemma confidence_factors_text:
  assumes "get data ''certificate_number'' (JStr []) = Inr (JStr s)" and "s \<noteq> []"
  shows "confidence_factors data pdf_text =
     Inr [(''completeness'',
           real (length [field \<leftarrow> confidence_fields. get_nested_value data field \<noteq> None]) /
             real (length confidence_fields), 0.3),
          (''dates'', if validate_date_sequence data then 1 else 0.3, 0.25),
          (''cert_format'', if upper_certificate_shape (strip s) then 1 else 0.2, 0.2),
          (''text_quality'', min 1 (real (length (strip pdf_text)) / 1000), 0.15),
          (''limits'', if validate_policy_limits data then 1 else 0.5, 0.1)]"
  using assms by (simp add: confidence_factors_def format_check_shape Let_def)

lemma stage_five_succeeds:
  assumes "validate_required_fields data" and "consensus_check data fitz_text plumber_text"
    and "validate_date_sequence data"
    and "get data ''certificate_number'' (JStr []) = Inr (JStr s)" and "s \<noteq> []"
    and "upper_certificate_shape (strip s)"
  shows "\<exists>v. validate_extraction data pdf_text fitz_text plumber_text timestamp = Inr v"
proof -
  from assms(1) obtain kvs where "data = JObj kvs" by (rule required_certificate_number)
  with assms show ?thesis
    by (simp add: stage_four calculate_extraction_confidence_def confidence_factors_text)
qed

lemma lower_case_fields:
  "validate_required_fields (candidate_numbered ''abcd1234'')"
  "consensus_check (candidate_numbered ''abcd1234'') ''No. abcd1234'' []"
  "validate_date_sequence (candidate_numbered ''abcd1234'')"
  "get (candidate_numbered ''abcd1234'') ''certificate_number'' (JStr []) = Inr (JStr ''abcd1234'')"
  by (simp_all add: candidate_numbered_def validate_required_fields_def required_paths_def
      get_nested_value_def consensus_check_def get_def strip_def eval_classes
      validate_date_sequence_def date_fields_def strptime_value_def strptime_def strptime_regex_def
      re_match_def decimal_def days_in_month_def leap_year_def not_before_def)

text \<open>
  Claim C8 at a failing input: \<open>abcd1234\<close> is eight alphanumeric characters, the first of
  the four shapes, and the format check refuses it. The patterns are written over
  \<open>A-Z\<close> and matched without \<open>re.IGNORECASE\<close>, while the comments beside them read
  "Alphanumeric 8-20 chars" and "Alphanumeric with dash". A candidate with this number
  that passes the first three stages is rejected with \<open>FormatError\<close>.
\<close>

theorem lower_case_number_rejected:
  "certificate_shape ''abcd1234'' \<and>
   validate_certificate_number_format (JStr ''abcd1234'') = Inr False \<and>
   validate_required_fields (candidate_numbered ''abcd1234'') \<and>
   consensus_check (candidate_numbered ''abcd1234'') ''No. abcd1234'' [] \<and>
   validate_date_sequence (candidate_numbered ''abcd1234'') \<and>
   validate_extraction (candidate_numbered ''abcd1234'') ''No. abcd1234'' ''No. abcd1234'' []
       ''2025-01-01T00:00:00'' =
     Inl (FormatError ''Invalid certificate number format: abcd1234'')"
proof -
  have shape: "\<not> upper_certificate_shape (strip ''abcd1234'')"
    by (simp add: upper_certificate_shape_def run_def dashed_def strip_def eval_classes)
  have spec: "certificate_shape ''abcd1234''"
    by (simp add: certificate_shape_def run_def is_alphanumeric_def is_letter_def eval_classes)
  have check: "validate_certificate_number_format (JStr ''abcd1234'') = Inr False"
    using shape by (simp add: format_check_shape)
  from stage_four [OF lower_case_fields, of "''No. abcd1234''" "''2025-01-01T00:00:00''"] shape
  have "validate_extraction (candidate_numbered ''abcd1234'') ''No. abcd1234'' ''No. abcd1234'' []
       ''2025-01-01T00:00:00'' =
     Inl (FormatError ''Invalid certificate number format: abcd1234'')" by simp
  with spec check lower_case_fields show ?thesis by simp
qed

text \<open>
  What the format check does accept: a non-empty certificate number passes exactly when
  the number, with surrounding whitespace removed, has one of the four shapes over
  upper-case letters and digits; and a candidate that has passed the first three stages
  is rejected with \<open>FormatError\<close> exactly when its certificate number has none of them.
  In the instances below \<open>AB-123456\<close> passes and \<open>!!!\<close> fails.
\<close>

theorem certificate_format_upper_case:
  "(s \<noteq> [] \<longrightarrow> validate_certificate_number_format (JStr s) = Inr (upper_certificate_shape (strip s))) \<and>
   (validate_required_fields data \<and> consensus_check data fitz_text plumber_text \<and>
    validate_date_sequence data \<longrightarrow>
      (\<exists>n. get data ''certificate_number'' (JStr []) = Inr (JStr n) \<and> n \<noteq> [] \<and>
         ((\<exists>m. validate_extraction data pdf_text fitz_text plumber_text timestamp = Inl (FormatError m)) \<longleftrightarrow>
            \<not> upper_certificate_shape (strip n)) \<and>
         (\<not> upper_certificate_shape (strip n) \<longrightarrow>
            validate_extraction data pdf_text fitz_text plumber_text timestamp =
              Inl (FormatError (''Invalid certificate number format: '' @ n)))))"
proof (intro conjI impI)
  assume "s \<noteq> []"
  then show "validate_certificate_number_format (JStr s) = Inr (upper_certificate_shape (strip s))"
    by (rule format_check_shape)
next
  assume a: "validate_required_fields data \<and> consensus_check data fitz_text plumber_text \<and>
    validate_date_sequence data"
  then obtain n where n: "get data ''certificate_number'' (JStr []) = Inr (JStr n)" "n \<noteq> []"
    using consensus_certificate_number [of data fitz_text plumber_text] by blast
  note four = stage_four [of data fitz_text plumber_text n pdf_text timestamp]
  have bad: "validate_extraction data pdf_text fitz_text plumber_text timestamp =
      Inl (FormatError (''Invalid certificate number format: '' @ n))"
    if "\<not> upper_certificate_shape (strip n)"
    using a n that four by simp
  have good: "\<not> (\<exists>m. validate_extraction data pdf_text fitz_text plumber_text timestamp = Inl (FormatError m))"
    if "upper_certificate_shape (strip n)"
    using stage_five_succeeds [of data fitz_text plumber_text n pdf_text timestamp] a n that by auto
  from bad good have "(\<exists>m. validate_extraction data pdf_text fitz_text plumber_text timestamp = Inl (FormatError m)) \<longleftrightarrow>
      \<not> upper_certificate_shape (strip n)" by blast
  with n bad show "\<exists>n. get data ''certificate_number'' (JStr []) = Inr (JStr n) \<and> n \<noteq> [] \<and>
         ((\<exists>m. validate_extraction data pdf_text fitz_text plumber_text timestamp = Inl (FormatError m)) \<longleftrightarrow>
            \<not> upper_certificate_shape (strip n)) \<and>
         (\<not> upper_certificate_shape (strip n) \<longrightarrow>
            validate_extraction data pdf_text fitz_text plumber_text timestamp =
              Inl (FormatError (''Invalid certificate number format: '' @ n)))" by blast
qed

lemma numbered_fields:
  "validate_required_fields (candidate_numbered ''!!!'')"
  "consensus_check (candidate_numbered ''!!!'') ''No. !!!'' []"
  "validate_date_sequence (candidate_numbered ''!!!'')"
  "get (candidate_numbered ''!!!'') ''certificate_number'' (JStr []) = Inr (JStr ''!!!'')"
  by (simp_all add: candidate_numbered_def validate_required_fields_def required_paths_def
      get_nested_value_def consensus_check_def get_def strip_def eval_classes
      validate_date_sequence_def date_fields_def strptime_value_def strptime_def strptime_regex_def
      re_match_def decimal_def days_in_month_def leap_year_def not_before_def)

theorem certificate_format_upper_case_witness:
  "validate_certificate_number_format (JStr ''AB-123456'') = Inr True \<and>
   upper_certificate_shape (strip ''AB-123456'') \<and>
   validate_certificate_number_format (JStr ''!!!'') = Inr False \<and>
   validate_certificate_number_format (JStr '' ABCD1234 '') = Inr True \<and>
   validate_required_fields (candidate_numbered ''!!!'') \<and>
   consensus_check (candidate_numbered ''!!!'') ''No. !!!'' [] \<and>
   validate_date_sequence (candidate_numbered ''!!!'') \<and>
   validate_extraction (candidate_numbered ''!!!'') ''No. !!!'' ''No. !!!'' [] ''2025-01-01T00:00:00'' =
     Inl (FormatError ''Invalid certificate number format: !!!'')"
proof -
  have shapes: "upper_certificate_shape (strip ''AB-123456'')" "\<not> upper_certificate_shape (strip ''!!!'')"
    "upper_certificate_shape (strip '' ABCD1234 '')"
    by (simp_all add: upper_certificate_shape_def run_def dashed_def strip_def eval_classes)
  from certificate_format_upper_case [of "''AB-123456''"] certificate_format_upper_case [of "''!!!''"]
    certificate_format_upper_case [of "'' ABCD1234 ''"]
    certificate_format_upper_case [of _ "candidate_numbered ''!!!''" "''No. !!!''" "[]" "''No. !!!''"
      "''2025-01-01T00:00:00''"]
    numbered_fields shapes
  show ?thesis by auto
qed


subsection \<open>Confidence\<close>

lemma map_of_dict_set: "map_of (dict_set kvs key v) key = Some v"
  by (induction kvs key v rule: dict_set.induct) auto

lemma validate_extraction_stages:
  assumes "validate_extraction data pdf_text fitz_text plumber_text timestamp = Inr validated"
  shows "validate_required_fields data" and "consensus_check data fitz_text plumber_text"
    and "validate_date_sequence data"
  using assms by (auto simp: validate_extraction_def split: if_splits)

lemma validate_extraction_success:
  assumes "validate_extraction data pdf_text fitz_text plumber_text timestamp = Inr validated"
  obtains n kvs c where "get data ''certificate_number'' (JStr []) = Inr (JStr n)" and "n \<noteq> []"
    and "upper_certificate_shape (strip n)" and "data = JObj kvs"
    and "calculate_extraction_confidence data pdf_text = Inr c"
    and "validated = JObj (dict_set kvs ''_metadata''
           (JObj [(''confidence_score'', JFloat c), (''validation_passed'', JBool True),
                  (''extraction_timestamp'', JStr timestamp)]))"
proof -
  note st = validate_extraction_stages [OF assms]
  from st(1,2) obtain n where n: "get data ''certificate_number'' (JStr []) = Inr (JStr n)" "n \<noteq> []"
    by (rule consensus_certificate_number)
  from st(1) obtain kvs where k: "data = JObj kvs" by (rule required_certificate_number)
  note four = stage_four [OF st n, of pdf_text timestamp]
  from assms four have shape: "upper_certificate_shape (strip n)" by (auto split: if_splits)
  from assms four shape obtain c where c: "calculate_extraction_confidence data pdf_text = Inr c"
    by (auto split: sum.splits)
  with assms four shape k have "validated = JObj (dict_set kvs ''_metadata''
           (JObj [(''confidence_score'', JFloat c), (''validation_passed'', JBool True),
                  (''extraction_timestamp'', JStr timestamp)]))" by simp
  with n shape k c that show thesis by blast
qed

lemma completeness_bounds:
  "0 \<le> real (length [field \<leftarrow> confidence_fields. get_nested_value data field \<noteq> None]) /
        real (length confidence_fields)"
  "real (length [field \<leftarrow> confidence_fields. get_nested_value data field \<noteq> None]) /
        real (length confidence_fields) \<le> 1"
proof -
  have "length [field \<leftarrow> confidence_fields. get_nested_value data field \<noteq> None] \<le> length confidence_fields"
    by (rule length_filter_le)
  moreover have "0 < length confidence_fields" by (simp add: confidence_fields_def)
  ultimately show "real (length [field \<leftarrow> confidence_fields. get_nested_value data field \<noteq> None]) /
        real (length confidence_fields) \<le> 1" by simp
qed simp

lemma weighted_sum_bounds:
  fixes a b c d e :: real
  assumes "0 \<le> a" "a \<le> 1" "0 \<le> b" "b \<le> 1" "0 \<le> c" "c \<le> 1" "0 \<le> d" "d \<le> 1" "0 \<le> e" "e \<le> 1"
  shows "0 \<le> a * 0.3 + b * 0.25 + c * 0.2 + d * 0.15 + e * 0.1"
    and "a * 0.3 + b * 0.25 + c * 0.2 + d * 0.15 + e * 0.1 \<le> 1"
  using assms by simp_all

text \<open>
  Claim C9: when validation succeeds, the confidence is the sum of five scores, each
  between 0 and 1, weighted 0.30, 0.25, 0.20, 0.15 and 0.10, which add up to 1; it lies
  between 0 and 1, it is the \<open>confidence_score\<close> of the metadata and of the envelope, and
  the envelope's \<open>needs_human_review\<close> is the truth value of \<open>confidence_score < 0.7\<close>.
\<close>

theorem confidence_score_in_unit_interval:
  "validate_extraction data pdf_text fitz_text plumber_text timestamp = Inr validated \<longrightarrow>
     (\<exists>factors score.
        confidence_factors data pdf_text = Inr factors \<and>
        map (\<lambda>(name, s, weight). weight) factors = [0.3, 0.25, 0.2, 0.15, 0.1] \<and>
        sum_list (map (\<lambda>(name, s, weight). weight) factors) = 1 \<and>
        list_all (\<lambda>(name, s, weight). 0 \<le> s \<and> s \<le> 1) factors \<and>
        score = sum_list (map (\<lambda>(name, s, weight). s * weight) factors) \<and>
        metadata_confidence validated = Inr (JFloat score) \<and>
        0 \<le> score \<and> score \<le> 1 \<and>
        processing_info
          (process_insurance_certificate path data pdf_text fitz_text plumber_text optimized_text
             gemini_time timestamp) ''confidence_score'' = Inr (JFloat score) \<and>
        processing_info
          (process_insurance_certificate path data pdf_text fitz_text plumber_text optimized_text
             gemini_time timestamp) ''needs_human_review'' = Inr (JBool (score < 0.7)))"
proof
  assume v: "validate_extraction data pdf_text fitz_text plumber_text timestamp = Inr validated"
  then obtain n kvs c where n: "get data ''certificate_number'' (JStr []) = Inr (JStr n)" "n \<noteq> []"
    and shape: "upper_certificate_shape (strip n)" and k: "data = JObj kvs"
    and c: "calculate_extraction_confidence data pdf_text = Inr c"
    and val: "validated = JObj (dict_set kvs ''_metadata''
           (JObj [(''confidence_score'', JFloat c), (''validation_passed'', JBool True),
                  (''extraction_timestamp'', JStr timestamp)]))"
    by (rule validate_extraction_success)
  let ?s1 = "real (length [field \<leftarrow> confidence_fields. get_nested_value data field \<noteq> None]) /
             real (length confidence_fields)"
  let ?s2 = "if validate_date_sequence data then 1 else 0.3 :: real"
  let ?s3 = "if upper_certificate_shape (strip n) then 1 else 0.2 :: real"
  let ?s4 = "min 1 (real (length (strip pdf_text)) / 1000)"
  let ?s5 = "if validate_policy_limits data then 1 else 0.5 :: real"
  let ?factors = "[(''completeness'', ?s1, 0.3), (''dates'', ?s2, 0.25), (''cert_format'', ?s3, 0.2),
                   (''text_quality'', ?s4, 0.15), (''limits'', ?s5, 0.1 :: real)]"
  have f: "confidence_factors data pdf_text = Inr ?factors"
    using n by (rule confidence_factors_text)
  have sum: "c = ?s1 * 0.3 + ?s2 * 0.25 + ?s3 * 0.2 + ?s4 * 0.15 + ?s5 * 0.1"
    using c by (simp add: calculate_extraction_confidence_def f)
  have b1: "0 \<le> ?s1" "?s1 \<le> 1" by (rule completeness_bounds)+
  have b2: "0 \<le> ?s2" "?s2 \<le> 1" by simp_all
  have b3: "0 \<le> ?s3" "?s3 \<le> 1" by simp_all
  have b4: "0 \<le> ?s4" "?s4 \<le> 1" by simp_all
  have b5: "0 \<le> ?s5" "?s5 \<le> 1" by simp_all
  have c0: "0 \<le> c" unfolding sum using b1 b2 b3 b4 b5 by (rule weighted_sum_bounds(1))
  have c1: "c \<le> 1" unfolding sum using b1 b2 b3 b4 b5 by (rule weighted_sum_bounds(2))
  have m: "metadata_confidence validated = Inr (JFloat c)"
    by (simp add: val metadata_confidence_def subscript_def map_of_dict_set)
  have env: "process_insurance_certificate path data pdf_text fitz_text plumber_text optimized_text
             gemini_time timestamp =
      JObj [(''success'', JBool True), (''data'', validated), (''file_path'', JStr path),
            (''processing_info'',
               JObj [(''text_length'', JInt (int (length pdf_text))),
                     (''optimized_text_length'', JInt (int (length optimized_text))),
                     (''extraction_method'', JStr ''enhanced_hybrid''),
                     (''gemini_processing_time'', JFloat gemini_time),
                     (''confidence_score'', JFloat c),
                     (''needs_human_review'', JBool (c < 0.7))])]"
    by (simp add: process_insurance_certificate_def v m less_than_def)
  have p1: "processing_info (process_insurance_certificate path data pdf_text fitz_text plumber_text
      optimized_text gemini_time timestamp) ''confidence_score'' = Inr (JFloat c)"
    unfolding env by (simp add: processing_info_def subscript_def)
  have p2: "processing_info (process_insurance_certificate path data pdf_text fitz_text plumber_text
      optimized_text gemini_time timestamp) ''needs_human_review'' = Inr (JBool (c < 0.7))"
    unfolding env by (simp add: processing_info_def subscript_def)
  have w: "map (\<lambda>(name, s, weight). weight) ?factors = [0.3, 0.25, 0.2, 0.15, 0.1]" by simp
  have ws: "sum_list (map (\<lambda>(name, s, weight). weight) ?factors) = 1" by simp
  have la: "list_all (\<lambda>(name, s, weight). 0 \<le> s \<and> s \<le> 1) ?factors"
    using b1 b2 b3 b4 b5 by simp
  have sc: "c = sum_list (map (\<lambda>(name, s, weight). s * weight) ?factors)"
    unfolding sum by simp
  show "\<exists>factors score.
        confidence_factors data pdf_text = Inr factors \<and>
        map (\<lambda>(name, s, weight). weight) factors = [0.3, 0.25, 0.2, 0.15, 0.1] \<and>
        sum_list (map (\<lambda>(name, s, weight). weight) factors) = 1 \<and>
        list_all (\<lambda>(name, s, weight). 0 \<le> s \<and> s \<le> 1) factors \<and>
        score = sum_list (map (\<lambda>(name, s, weight). s * weight) factors) \<and>
        metadata_confidence validated = Inr (JFloat score) \<and>
        0 \<le> score \<and> score \<le> 1 \<and>
        processing_info
          (process_insurance_certificate path data pdf_text fitz_text plumber_text optimized_text
             gemini_time timestamp) ''confidence_score'' = Inr (JFloat score) \<and>
        processing_info
          (process_insurance_certificate path data pdf_text fitz_text plumber_text optimized_text
             gemini_time timestamp) ''needs_human_review'' = Inr (JBool (score < 0.7))"
    by (intro exI [of _ ?factors] exI [of _ c] conjI) (rule f w ws la sc m c0 c1 p1 p2)+
qed


lemma well_formed_fields:
  "validate_required_fields (candidate_numbered ''AB-123456'')"
  "consensus_check (candidate_numbered ''AB-123456'') ''Certificate AB-123456 issued'' []"
  "validate_date_sequence (candidate_numbered ''AB-123456'')"
  "get (candidate_numbered ''AB-123456'') ''certificate_number'' (JStr []) = Inr (JStr ''AB-123456'')"
  "validate_policy_limits (candidate_numbered ''AB-123456'')"
  "length [field \<leftarrow> confidence_fields. get_nested_value (candidate_numbered ''AB-123456'') field \<noteq> None] = 3"
  by (simp_all add: candidate_numbered_def validate_required_fields_def required_paths_def
      get_nested_value_def consensus_check_def get_def strip_def eval_classes
      validate_date_sequence_def date_fields_def strptime_value_def strptime_def strptime_regex_def
      re_match_def decimal_def days_in_month_def leap_year_def not_before_def
      validate_policy_limits_def confidence_fields_def)

lemma well_formed_validated:
  "validate_extraction (candidate_numbered ''AB-123456'') ''Certificate AB-123456 issued''
     ''Certificate AB-123456 issued'' [] ''2025-01-01T00:00:00'' =
   Inr (JObj [(''certificate_number'', JStr ''AB-123456''),
           (''certificate_information'',
              JObj [(''certificate_type'', JStr ''COI''), (''issued_date'', JStr ''2024-01-01'')]),
           (''policies'',
              JObj [(''commercial_general_liability'', JObj [(''policy_number'', JStr ''GL-1'')]),
                    (''workers_compensation_and_employers_liability'',
                       JObj [(''policy_number'', JStr ''WC-1'')])]),
           (''_metadata'',
              JObj [(''confidence_score'', JFloat (4271 / 5000)),
                    (''validation_passed'', JBool True),
                    (''extraction_timestamp'', JStr ''2025-01-01T00:00:00'')])])"
proof -
  have shape: "upper_certificate_shape (strip ''AB-123456'')"
    by (simp add: upper_certificate_shape_def run_def dashed_def strip_def eval_classes)
  have q: "min 1 (real (length (strip ''Certificate AB-123456 issued'')) / 1000) = 28 / 1000"
    by (simp add: strip_def eval_classes)
  have l: "length confidence_fields = 3" by (simp add: confidence_fields_def)
  have c: "calculate_extraction_confidence (candidate_numbered ''AB-123456'')
      ''Certificate AB-123456 issued'' = Inr (4271 / 5000)"
    by (simp add: calculate_extraction_confidence_def
        confidence_factors_text [OF well_formed_fields(4)] well_formed_fields shape q l
        del: not_None_eq)
  show ?thesis
    using stage_four [OF well_formed_fields(1,2,3,4), of "''Certificate AB-123456 issued''"
        "''2025-01-01T00:00:00''"] shape c
    by (simp add: candidate_numbered_def)
qed

theorem confidence_score_in_unit_interval_witness:
  "validate_extraction (candidate_numbered ''AB-123456'') ''Certificate AB-123456 issued''
     ''Certificate AB-123456 issued'' [] ''2025-01-01T00:00:00'' =
   Inr (JObj [(''certificate_number'', JStr ''AB-123456''),
           (''certificate_information'',
              JObj [(''certificate_type'', JStr ''COI''), (''issued_date'', JStr ''2024-01-01'')]),
           (''policies'',
              JObj [(''commercial_general_liability'', JObj [(''policy_number'', JStr ''GL-1'')]),
                    (''workers_compensation_and_employers_liability'',
                       JObj [(''policy_number'', JStr ''WC-1'')])]),
           (''_metadata'',
              JObj [(''confidence_score'', JFloat (4271 / 5000)),
                    (''validation_passed'', JBool True),
                    (''extraction_timestamp'', JStr ''2025-01-01T00:00:00'')])]) \<and>
   processing_info
     (process_insurance_certificate ''coi.pdf'' (candidate_numbered ''AB-123456'')
        ''Certificate AB-123456 issued'' ''Certificate AB-123456 issued'' []
        ''Certificate AB-123456 issued'' 2 ''2025-01-01T00:00:00'') ''confidence_score'' =
     Inr (JFloat (4271 / 5000)) \<and>
   processing_info
     (process_insurance_certificate ''coi.pdf'' (candidate_numbered ''AB-123456'')
        ''Certificate AB-123456 issued'' ''Certificate AB-123456 issued'' []
        ''Certificate AB-123456 issued'' 2 ''2025-01-01T00:00:00'') ''needs_human_review'' =
     Inr (JBool False)"
proof -
  let ?v = "JObj [(''certificate_number'', JStr ''AB-123456''),
           (''certificate_information'',
              JObj [(''certificate_type'', JStr ''COI''), (''issued_date'', JStr ''2024-01-01'')]),
           (''policies'',
              JObj [(''commercial_general_liability'', JObj [(''policy_number'', JStr ''GL-1'')]),
                    (''workers_compensation_and_employers_liability'',
                       JObj [(''policy_number'', JStr ''WC-1'')])]),
           (''_metadata'',
              JObj [(''confidence_score'', JFloat (4271 / 5000)),
                    (''validation_passed'', JBool True),
                    (''extraction_timestamp'', JStr ''2025-01-01T00:00:00'')])]"
  have m: "metadata_confidence ?v = Inr (JFloat (4271 / 5000))"
    by (simp add: metadata_confidence_def subscript_def)
  from confidence_score_in_unit_interval [of "candidate_numbered ''AB-123456''"
      "''Certificate AB-123456 issued''" "''Certificate AB-123456 issued''" "[]"
      "''2025-01-01T00:00:00''" ?v "''coi.pdf''" "''Certificate AB-123456 issued''" 2]
    well_formed_validated
  obtain score where "metadata_confidence ?v = Inr (JFloat score)"
    and "processing_info
     (process_insurance_certificate ''coi.pdf'' (candidate_numbered ''AB-123456'')
        ''Certificate AB-123456 issued'' ''Certificate AB-123456 issued'' []
        ''Certificate AB-123456 issued'' 2 ''2025-01-01T00:00:00'') ''confidence_score'' =
     Inr (JFloat score)"
    and "processing_info
     (process_insurance_certificate ''coi.pdf'' (candidate_numbered ''AB-123456'')
        ''Certificate AB-123456 issued'' ''Certificate AB-123456 issued'' []
        ''Certificate AB-123456 issued'' 2 ''2025-01-01T00:00:00'') ''needs_human_review'' =
     Inr (JBool (score < 0.7))" by blast
  with m well_formed_validated show ?thesis by simp
qed


section \<open>Properties of the per-request workflows\<close>


lemma short_text_unchanged: "intelligent_chunking ''Certificate AB-123456 issued'' 6000 = ''Certificate AB-123456 issued''"
  by (simp add: intelligent_chunking_def)

lemma clean_braces: "clean_response ''{}'' = Inr ''{}''"
  by (simp add: clean_response_def strip_def is_space_def code_def)



lemma worker_validation_error:
  assumes "clean_response response_text = Inr clean" and "json_loads w clean = Inr data"
    and "validate_extraction data pdf_text fitz_text plumber_text (clock w) = Inl e"
  shows "validate_response w request file_hash (pdf_text, fitz_text, plumber_text) response_text =
         processing_failed request e"
  using assms by (simp add: validate_response_def)

lemma synchronous_validation_error:
  assumes "validate_extraction data pdf_text fitz_text plumber_text timestamp = Inl e"
    and "is_validation_error e"
  shows "process_insurance_certificate path data pdf_text fitz_text plumber_text optimized_text
           gemini_time timestamp =
         JObj [(''success'', JBool True),
               (''data'', data),
               (''file_path'', JStr path),
               (''validation_warnings'', JArr [JStr (message e)]),
               (''needs_human_review'', JBool True),
               (''processing_info'',
                  JObj [(''text_length'', JInt (int (length pdf_text))),
                        (''extraction_method'', JStr ''enhanced_hybrid_unvalidated''),
                        (''gemini_processing_time'', JFloat gemini_time)])]"
  using assms by (simp add: process_insurance_certificate_def)

lemmas md5_defs = md5_hexdigest_def md5_pad_def md5_block_def md5_steps_def md5_mix_def
  rotate_left_def not32_def w32_def hex_byte_def bytes_le4_def bytes_le8_def encode_def
  file_bytes_def code_def

lemma replicate_num: "replicate (numeral k) x = x # replicate (pred_numeral k) x"
  by (simp add: numeral_eq_Suc)

lemma cache_key_a: "cache_key ''a.pdf'' = ''cache:49b732e3fec4da308144a178c11be0e2''"
  by (simp add: cache_key_def md5_defs replicate_num)

lemma cache_key_b: "cache_key ''b.pdf'' = ''cache:6f48c255b95233664489270fac54e807''"
  by (simp add: cache_key_def md5_defs replicate_num)


lemma succeeded_envelope: "succeeded (success_envelope data path)"
  by (simp add: succeeded_def success_envelope_def subscript_def)

text \<open>
  Claim C4, as stated, fails for the synchronous endpoint: its key is the digest of the
  path, so the same document submitted as \<open>a.pdf\<close> and as \<open>b.pdf\<close> has two keys, and after
  the first submission the second is not served from the cache.
\<close>

theorem endpoint_cache_keyed_by_path:
  "cache_key ''a.pdf'' = ''cache:49b732e3fec4da308144a178c11be0e2'' \<and>
   cache_key ''b.pdf'' = ''cache:6f48c255b95233664489270fac54e807'' \<and>
   cache_key ''a.pdf'' \<noteq> cache_key ''b.pdf'' \<and>
   snd (fst (process_certificate (success_envelope (JStr ''same document''))
               (snd (process_certificate (success_envelope (JStr ''same document'')) Map.empty ''a.pdf''))
               ''a.pdf'')) = True \<and>
   snd (fst (process_certificate (success_envelope (JStr ''same document''))
               (snd (process_certificate (success_envelope (JStr ''same document'')) Map.empty ''a.pdf''))
               ''b.pdf'')) = False"
  by (simp add: process_certificate_def succeeded_envelope cache_key_a cache_key_b Let_def)

lemma worker_reads_one_key:
  assumes "read_file w (file_path request) = Inr content"
    and "c (result_key content) = cached w (result_key content)"
  shows "process_single_request (w\<lparr>cached := c\<rparr>) request = process_single_request w request"
  using assms
  by (simp add: process_single_request_def result_key_def validate_response_def Let_def
      split: sum.splits prod.splits)

lemma worker_writes_one_key:
  assumes "read_file w (file_path request) = Inr content"
    and "cache_write (process_single_request w request) = Some (key, result)"
  shows "key = result_key content"
  using assms
  by (auto simp: process_single_request_def result_key_def validate_response_def Let_def
      processing_failed_def decode_failed_def split: sum.splits prod.splits if_splits)

lemma endpoint_reads_one_key:
  assumes "store' (cache_key path) = store (cache_key path)"
  shows "fst (process_certificate process store' path) = fst (process_certificate process store path)"
  using assms by (simp add: process_certificate_def Let_def split: option.splits)

text \<open>
  Claim C4, amended: the queue worker consults and writes the result cache only at the
  key made of \<open>ocr:result:\<close> and the MD5 digest of the bytes of the file, whatever the
  path; the synchronous endpoint consults its cache only at the key made of \<open>cache:\<close> and
  the MD5 digest of the path.
\<close>

theorem cache_keys:
  "(read_file w (file_path request) = Inr content \<and>
    c (result_key content) = cached w (result_key content) \<longrightarrow>
      process_single_request (w\<lparr>cached := c\<rparr>) request = process_single_request w request) \<and>
   (read_file w (file_path request) = Inr content \<and>
    cache_write (process_single_request w request) = Some (key, result) \<longrightarrow>
      key = result_key content) \<and>
   (store' (cache_key path) = store (cache_key path) \<longrightarrow>
      fst (process_certificate process store' path) = fst (process_certificate process store path))"
  using worker_reads_one_key worker_writes_one_key endpoint_reads_one_key by blast


lemma sample_run:
  "\<exists>result. process_single_request (sample_world (candidate_numbered ''AB-123456''))
       \<lparr>request_id = rid, file_path = path, priority = 1\<rparr> =
     \<lparr>envelope = result, statuses = [''processing'', ''completed''],
      cache_write = Some (result_key ''%PDF-1.4'', result)\<rparr>"
  by (simp add: process_single_request_def sample_world_def validate_response_def
      short_text_unchanged clean_braces well_formed_validated metadata_confidence_def
      subscript_def less_than_def result_key_def Let_def)

lemma result_key_pdf: "result_key ''%PDF-1.4'' = ''ocr:result:914240125319291c7cb7e712e419b254''"
  by (simp add: result_key_def md5_defs replicate_num)

theorem cache_keys_witness:
  "read_file (sample_world (candidate_numbered ''AB-123456'')) ''a.pdf'' = Inr ''%PDF-1.4'' \<and>
   read_file (sample_world (candidate_numbered ''AB-123456'')) ''b.pdf'' = Inr ''%PDF-1.4'' \<and>
   result_key ''%PDF-1.4'' = ''ocr:result:914240125319291c7cb7e712e419b254'' \<and>
   map_option fst (cache_write (process_single_request (sample_world (candidate_numbered ''AB-123456''))
       \<lparr>request_id = ''r1'', file_path = ''a.pdf'', priority = 1\<rparr>)) =
     Some (result_key ''%PDF-1.4'') \<and>
   map_option fst (cache_write (process_single_request (sample_world (candidate_numbered ''AB-123456''))
       \<lparr>request_id = ''r2'', file_path = ''b.pdf'', priority = 1\<rparr>)) =
     Some (result_key ''%PDF-1.4'') \<and>
   process_single_request
     ((sample_world (candidate_numbered ''AB-123456''))
        \<lparr>cached := (\<lambda>key. if key = result_key ''%PDF-1.4'' then None else Some (JStr ''other''))\<rparr>)
     \<lparr>request_id = ''r2'', file_path = ''b.pdf'', priority = 1\<rparr> =
   process_single_request (sample_world (candidate_numbered ''AB-123456''))
     \<lparr>request_id = ''r2'', file_path = ''b.pdf'', priority = 1\<rparr> \<and>
   fst (process_certificate (success_envelope (JStr ''same document''))
          [cache_key ''b.pdf'' \<mapsto> success_envelope (JStr ''same document'') ''b.pdf''] ''a.pdf'') =
   fst (process_certificate (success_envelope (JStr ''same document'')) Map.empty ''a.pdf'')"
proof -
  let ?w = "sample_world (candidate_numbered ''AB-123456'')"
  let ?r1 = "\<lparr>request_id = ''r1'', file_path = ''a.pdf'', priority = 1\<rparr>"
  let ?r2 = "\<lparr>request_id = ''r2'', file_path = ''b.pdf'', priority = 1\<rparr>"
  have rd: "read_file ?w (file_path ?r1) = Inr ''%PDF-1.4''" "read_file ?w (file_path ?r2) = Inr ''%PDF-1.4''"
    by (simp_all add: sample_world_def)
  from sample_run [of "''r1''" "''a.pdf''"] obtain k1 v1 where
    w1: "cache_write (process_single_request ?w ?r1) = Some (k1, v1)" by auto
  from sample_run [of "''r2''" "''b.pdf''"] obtain k2 v2 where
    w2: "cache_write (process_single_request ?w ?r2) = Some (k2, v2)" by auto
  have k1: "k1 = result_key ''%PDF-1.4''"
    using cache_keys [of ?w ?r1 "''%PDF-1.4''" _ k1 v1] rd w1 by blast
  have k2: "k2 = result_key ''%PDF-1.4''"
    using cache_keys [of ?w ?r2 "''%PDF-1.4''" _ k2 v2] rd w2 by blast
  have same: "process_single_request
      (?w\<lparr>cached := (\<lambda>key. if key = result_key ''%PDF-1.4'' then None else Some (JStr ''other''))\<rparr>) ?r2 =
      process_single_request ?w ?r2"
    using cache_keys [of ?w ?r2 "''%PDF-1.4''"
        "\<lambda>key. if key = result_key ''%PDF-1.4'' then None else Some (JStr ''other'')"] rd
    by (simp add: sample_world_def)
  have endpoint: "fst (process_certificate (success_envelope (JStr ''same document''))
          [cache_key ''b.pdf'' \<mapsto> success_envelope (JStr ''same document'') ''b.pdf''] ''a.pdf'') =
      fst (process_certificate (success_envelope (JStr ''same document'')) Map.empty ''a.pdf'')"
    using cache_keys [of _ _ _ _ _ _
        "[cache_key ''b.pdf'' \<mapsto> success_envelope (JStr ''same document'') ''b.pdf'']" "''a.pdf''"
        Map.empty "success_envelope (JStr ''same document'')"]
    by (simp add: cache_key_a cache_key_b)
  from rd w1 w2 k1 k2 same endpoint result_key_pdf show ?thesis by simp
qed


end
